theory Spec2Isabelle
  imports Complex_Main
begin

section \<open>Numbers\<close>

text \<open>
  A JavaScript number: NaN, the two infinities, or a finite value. Finite values are
  taken as exact reals (the rounding of doubles and the sign of zero are not part of
  this model); the operations follow IEEE 754 on NaN and the infinities.
\<close>

datatype jsnum = NaN | Fnum real | PInf | NInf

fun js_neg :: "jsnum \<Rightarrow> jsnum" where
  "js_neg NaN = NaN"
| "js_neg (Fnum a) = Fnum (- a)"
| "js_neg PInf = NInf"
| "js_neg NInf = PInf"

fun js_add :: "jsnum \<Rightarrow> jsnum \<Rightarrow> jsnum" where
  "js_add NaN y = NaN"
| "js_add x NaN = NaN"
| "js_add (Fnum a) (Fnum b) = Fnum (a + b)"
| "js_add (Fnum a) y = y"
| "js_add x (Fnum b) = x"
| "js_add PInf PInf = PInf"
| "js_add NInf NInf = NInf"
| "js_add PInf NInf = NaN"
| "js_add NInf PInf = NaN"

definition js_sub :: "jsnum \<Rightarrow> jsnum \<Rightarrow> jsnum" where
  "js_sub x y = js_add x (js_neg y)"

definition signed_inf :: "bool \<Rightarrow> jsnum" where
  "signed_inf positive = (if positive then PInf else NInf)"

fun js_mul :: "jsnum \<Rightarrow> jsnum \<Rightarrow> jsnum" where
  "js_mul NaN y = NaN"
| "js_mul x NaN = NaN"
| "js_mul (Fnum a) (Fnum b) = Fnum (a * b)"
| "js_mul (Fnum a) y = (if a = 0 then NaN else signed_inf ((0 < a) = (y = PInf)))"
| "js_mul x (Fnum b) = (if b = 0 then NaN else signed_inf ((0 < b) = (x = PInf)))"
| "js_mul x y = signed_inf ((x = PInf) = (y = PInf))"

fun js_div :: "jsnum \<Rightarrow> jsnum \<Rightarrow> jsnum" where
  "js_div NaN y = NaN"
| "js_div x NaN = NaN"
| "js_div (Fnum a) (Fnum b) =
     (if b = 0 then (if a = 0 then NaN else signed_inf (0 < a)) else Fnum (a / b))"
| "js_div (Fnum a) y = Fnum 0"
| "js_div x (Fnum b) = signed_inf ((x = PInf) = (0 \<le> b))"
| "js_div x y = NaN"

fun js_sin :: "jsnum \<Rightarrow> jsnum" where
  "js_sin (Fnum a) = Fnum (sin a)"
| "js_sin x = NaN"

fun js_cos :: "jsnum \<Rightarrow> jsnum" where
  "js_cos (Fnum a) = Fnum (cos a)"
| "js_cos x = NaN"

fun js_sqrt :: "jsnum \<Rightarrow> jsnum" where
  "js_sqrt (Fnum a) = (if a < 0 then NaN else Fnum (sqrt a))"
| "js_sqrt PInf = PInf"
| "js_sqrt x = NaN"

text \<open>\<open>Math.atan2(y, x)\<close> on reals, and on numbers.\<close>

definition atan2 :: "real \<Rightarrow> real \<Rightarrow> real" where
  "atan2 y x =
     (if 0 < x then arctan (y / x)
      else if x < 0 then (if 0 \<le> y then arctan (y / x) + pi else arctan (y / x) - pi)
      else if 0 < y then pi / 2
      else if y < 0 then - (pi / 2)
      else 0)"

fun js_atan2 :: "jsnum \<Rightarrow> jsnum \<Rightarrow> jsnum" where
  "js_atan2 NaN x = NaN"
| "js_atan2 y NaN = NaN"
| "js_atan2 (Fnum b) (Fnum a) = Fnum (atan2 b a)"
| "js_atan2 (Fnum b) PInf = Fnum 0"
| "js_atan2 (Fnum b) NInf = Fnum (if 0 \<le> b then pi else - pi)"
| "js_atan2 PInf (Fnum a) = Fnum (pi / 2)"
| "js_atan2 NInf (Fnum a) = Fnum (- (pi / 2))"
| "js_atan2 PInf PInf = Fnum (pi / 4)"
| "js_atan2 PInf NInf = Fnum (3 * pi / 4)"
| "js_atan2 NInf PInf = Fnum (- (pi / 4))"
| "js_atan2 NInf NInf = Fnum (- (3 * pi / 4))"

text \<open>\<open>x > y\<close>: false when either side is NaN.\<close>

fun js_gt :: "jsnum \<Rightarrow> jsnum \<Rightarrow> bool" where
  "js_gt NaN y = False"
| "js_gt x NaN = False"
| "js_gt (Fnum a) (Fnum b) = (b < a)"
| "js_gt PInf y = (y \<noteq> PInf)"
| "js_gt x NInf = (x \<noteq> NInf)"
| "js_gt x y = False"

text \<open>Truthiness of a number: neither zero nor NaN.\<close>

definition truthy_num :: "jsnum \<Rightarrow> bool" where
  "truthy_num n = (n \<noteq> NaN \<and> n \<noteq> Fnum 0)"

section \<open>Data model\<close>

text \<open>
  Parsed JSON: the values of the fields that the source types as \<open>any\<close> (the embedded
  \<open>location\<close> and \<open>scrapedAt\<close> fields, the content of the durable store). An object is the
  list of its own members, read with \<open>map_of\<close>. A number too large for a double parses
  to an infinity.
\<close>

datatype json =
    JNull
  | JBool bool
  | JNum jsnum
  | JStr string
  | JArr "json list"
  | JObj "(string \<times> json) list"

text \<open>
  \<open>type Place\<close>: the fields the core reads. A field typed \<open>string\<close> in the source is a
  string when present (\<open>None\<close> is an absent field); \<open>location\<close> and \<open>scrapedAt\<close> are read
  through \<open>any\<close> and hold whatever the dataset has.
\<close>

record Place =
  title :: "string option"
  street :: "string option"
  url :: "string option"
  location :: "json option"
  scrapedAt :: "json option"

datatype DatasetId = Singapore | HongKong

record Coordinates =
  lat :: jsnum
  lng :: jsnum

text \<open>
  What the platform computes and this model does not: the reading of a string as a
  number (\<open>Number\<close> of a string), the printing of a number (\<open>String\<close> of a number) and
  \<open>Date.parse\<close>. Every definition below that depends on them takes them as a parameter.
\<close>

record platform =
  string_to_number :: "string \<Rightarrow> jsnum"
  number_to_string :: "jsnum \<Rightarrow> string"
  date_parse :: "string \<Rightarrow> jsnum"

section \<open>Place identity\<close>

definition STORAGE_KEY_PREFIX :: string where
  "STORAGE_KEY_PREFIX = ''im-starving:visited''"

fun dataset_id_string :: "DatasetId \<Rightarrow> string" where
  "dataset_id_string Singapore = ''singapore''"
| "dataset_id_string HongKong = ''hong-kong''"

definition storageKey :: "DatasetId \<Rightarrow> string" where
  "storageKey datasetId = STORAGE_KEY_PREFIX @ '':'' @ dataset_id_string datasetId"

text \<open>Decimal text of a position, as a template literal prints a non-negative integer.\<close>

fun show_nat :: "nat \<Rightarrow> string" where
  "show_nat n =
     (if n < 10 then [''0123456789'' ! n]
      else show_nat (n div 10) @ [''0123456789'' ! (n mod 10)])"

declare show_nat.simps [simp del]

text \<open>Truthiness of an optional string: defined and not empty.\<close>

fun truthy_str :: "string option \<Rightarrow> bool" where
  "truthy_str None = False"
| "truthy_str (Some s) = (s \<noteq> [])"

text \<open>
  \<open>placeKey(place, index)\<close>: the url when truthy; else, when the title is truthy,
  \<open>title::street\<close> with an absent street printed as the empty string; else \<open>index-<i>\<close>.
\<close>

definition placeKey :: "Place \<Rightarrow> nat \<Rightarrow> string" where
  "placeKey place index =
     (let byUrl = url place
      in if truthy_str byUrl then the byUrl
         else (let byTitle = (if truthy_str (title place)
                              then Some (the (title place) @ ''::''
                                         @ (case street place of None \<Rightarrow> [] | Some st \<Rightarrow> st))
                              else None)
               in case byTitle of Some k \<Rightarrow> k | None \<Rightarrow> ''index-'' @ show_nat index))"

section \<open>Application state\<close>

text \<open>
  A JavaScript \<open>Set\<close> is held as the list of its members in insertion order; \<open>add\<close>
  appends a member that is not there yet, \<open>delete\<close> removes it, \<open>has\<close> is membership and
  \<open>size\<close> the length of a list built with \<open>add\<close>.
\<close>

definition set_add :: "'a \<Rightarrow> 'a list \<Rightarrow> 'a list" where
  "set_add x xs = (if x \<in> set xs then xs else xs @ [x])"

definition set_delete :: "'a \<Rightarrow> 'a list \<Rightarrow> 'a list" where
  "set_delete x xs = filter (\<lambda>y. y \<noteq> x) xs"

datatype Source = Hero | List_source

record DatasetInfo =
  total :: nat
  lastUpdated :: "int option"

text \<open>
  An item of the durable store is held as what \<open>JSON.parse\<close> makes of its text:
  \<open>Unparseable\<close> when parsing throws (the empty text included), the parsed value
  otherwise. Writing \<open>JSON.stringify\<close> of an array of strings stores that array.
\<close>

datatype stored = Unparseable | Parsed json

text \<open>
  The geo cache is a plain object, created as \<open>{}\<close>: its own members, and its prototype.
  The prototype is \<open>Object.prototype\<close> (\<open>None\<close>) until an assignment to the key
  \<open>__proto__\<close> runs the inherited setter and makes the assigned coordinate object the
  prototype; every other assignment creates or replaces an own member.
\<close>

record geo_object =
  own_props :: "string \<rightharpoonup> Coordinates"
  proto_coords :: "Coordinates option"

definition empty_object :: geo_object where
  "empty_object = \<lparr>own_props = Map.empty, proto_coords = None\<rparr>"

definition object_put :: "string \<Rightarrow> Coordinates \<Rightarrow> geo_object \<Rightarrow> geo_object" where
  "object_put k c g =
     (if k = ''__proto__'' then g\<lparr>proto_coords := Some c\<rparr>
      else g\<lparr>own_props := (own_props g)(k \<mapsto> c)\<rparr>)"

text \<open>The names of the members of \<open>Object.prototype\<close>; each is a function or an object.\<close>

definition OBJECT_PROTOTYPE_NAMES :: "string list" where
  "OBJECT_PROTOTYPE_NAMES =
     [''constructor'', ''hasOwnProperty'', ''isPrototypeOf'', ''propertyIsEnumerable'',
      ''toLocaleString'', ''toString'', ''valueOf'', ''__proto__'',
      ''__defineGetter__'', ''__defineSetter__'', ''__lookupGetter__'', ''__lookupSetter__'']"

text \<open>
  What \<open>geoCache[key]\<close> reads (\<open>None\<close> is \<open>undefined\<close>): an own coordinate object; else
  along the prototype chain, a number that is the \<open>lat\<close> or \<open>lng\<close> of a coordinate object
  made the prototype, that object itself under \<open>__proto__\<close>, or a member of
  \<open>Object.prototype\<close>.
\<close>

datatype cache_value = Coords Coordinates | Plain_number jsnum | Builtin_member

definition object_get :: "geo_object \<Rightarrow> string \<Rightarrow> cache_value option" where
  "object_get g k =
     (case own_props g k of
        Some c \<Rightarrow> Some (Coords c)
      | None \<Rightarrow>
          (case proto_coords g of
             Some c \<Rightarrow>
               if k = ''lat'' then Some (Plain_number (lat c))
               else if k = ''lng'' then Some (Plain_number (lng c))
               else if k = ''__proto__'' then Some (Coords c)
               else if List.member OBJECT_PROTOTYPE_NAMES k then Some Builtin_member
               else None
           | None \<Rightarrow>
               if List.member OBJECT_PROTOTYPE_NAMES k then Some Builtin_member else None))"

text \<open>Truthiness of what was read, as \<open>if (!coords)\<close> tests it.\<close>

fun truthy_value :: "cache_value option \<Rightarrow> bool" where
  "truthy_value None = False"
| "truthy_value (Some (Coords c)) = True"
| "truthy_value (Some (Plain_number n)) = truthy_num n"
| "truthy_value (Some Builtin_member) = True"

text \<open>
  The \<open>lat\<close> and \<open>lng\<close> that arithmetic reads from such a value: those of a coordinate
  object; a number, a function and \<open>Object.prototype\<close> have neither member, and
  \<open>undefined\<close> in arithmetic is NaN.
\<close>

fun as_coordinates :: "cache_value \<Rightarrow> Coordinates" where
  "as_coordinates (Coords c) = c"
| "as_coordinates (Plain_number n) = \<lparr>lat = NaN, lng = NaN\<rparr>"
| "as_coordinates Builtin_member = \<lparr>lat = NaN, lng = NaN\<rparr>"

text \<open>
  The state of \<open>App\<close> that the selection, loading and ranking logic uses, with the
  per-dataset entries of \<open>window.localStorage\<close>. \<open>data\<close> holds objects only: the loader
  never stores an array with a \<open>null\<close> element (see \<open>forEach_place\<close>), so the guards
  \<open>if (!place)\<close> on a stored record are never taken and \<open>data[i]\<close> is falsy exactly when
  \<open>i\<close> is out of range.
\<close>

record app_state =
  datasetId :: DatasetId
  data :: "Place list"
  loadError :: "string option"
  loading :: bool
  seen :: "nat list"
  currentIdx :: "nat option"
  selectionSource :: "Source option"
  visited :: "string list"
  geoCache :: geo_object
  userLocation :: "Coordinates option"
  statusMessage :: "string option"
  picking :: bool
  datasetInfo :: "DatasetInfo option"
  localStorage :: "string \<rightharpoonup> stored"

section \<open>Geo utility\<close>

definition toRad :: "jsnum \<Rightarrow> jsnum" where
  "toRad deg = js_div (js_mul deg (Fnum pi)) (Fnum 180)"

definition haversineDistance :: "Coordinates \<Rightarrow> Coordinates \<Rightarrow> jsnum" where
  "haversineDistance a b =
     (let R = Fnum 6371;
          dLat = toRad (js_sub (lat b) (lat a));
          dLng = toRad (js_sub (lng b) (lng a));
          lat1 = toRad (lat a);
          lat2 = toRad (lat b);
          sinLat = js_sin (js_div dLat (Fnum 2));
          sinLng = js_sin (js_div dLng (Fnum 2));
          h = js_add (js_mul sinLat sinLat)
                     (js_mul (js_mul (js_mul sinLng sinLng) (js_cos lat1)) (js_cos lat2));
          c = js_mul (Fnum 2) (js_atan2 (js_sqrt h) (js_sqrt (js_sub (Fnum 1) h)))
      in js_mul R c)"

section \<open>Dataset loader\<close>

text \<open>
  What \<open>fetch\<close> and \<open>res.json()\<close> deliver. A rejection carries the message of the thrown
  value, if it has one. The parsed document is classified as the loader's two
  \<open>Array.isArray\<close> tests do: an array, an object whose \<open>data\<close> field is an array, or
  anything else. An element of the array is a record or \<open>null\<close> (\<open>None\<close>).
\<close>

datatype payload =
    Top_array "Place option list"
  | Data_wrapper "Place option list"
  | Other_shape

datatype body = Bad_json "string option" | Json_body payload

datatype fetched = Fetch_rejected "string option" | Response bool nat body

definition payload_array :: "payload \<Rightarrow> Place option list" where
  "payload_array raw =
     (case raw of Top_array a \<Rightarrow> a | Data_wrapper a \<Rightarrow> a | Other_shape \<Rightarrow> [])"

text \<open>
  The stored keys: the strings of the parsed array; nothing when the entry is absent,
  does not parse or is not an array.
\<close>

definition read_stored_keys :: "stored option \<Rightarrow> string list" where
  "read_stored_keys raw =
     (case raw of
        Some (Parsed (JArr vs)) \<Rightarrow> List.map_filter (\<lambda>v. case v of JStr k \<Rightarrow> Some k | _ \<Rightarrow> None) vs
      | _ \<Rightarrow> [])"

text \<open>\<open>a ?? b\<close> on a property that may be absent (\<open>None\<close>) or \<open>null\<close>.\<close>

definition nullish_or :: "json option \<Rightarrow> json option \<Rightarrow> json option" where
  "nullish_or a b = (case a of None \<Rightarrow> b | Some JNull \<Rightarrow> b | Some v \<Rightarrow> Some v)"

text \<open>
  The messages of the two \<open>TypeError\<close>s that dataset content can raise in the loader
  (the exact texts depend on the engine): reading \<open>place.url\<close> of \<open>null\<close>, and converting
  to a primitive an object that has neither a callable \<open>toString\<close> nor a \<open>valueOf\<close>
  returning a primitive.
\<close>

definition NULL_PLACE_MESSAGE :: string where
  "NULL_PLACE_MESSAGE = ''Cannot read properties of null''"

definition NO_PRIMITIVE_MESSAGE :: string where
  "NO_PRIMITIVE_MESSAGE = ''Cannot convert object to primitive value''"

text \<open>
  Conversion to a string; \<open>Inl\<close> is a throw and carries the message. A parsed object
  prints as \<open>[object Object]\<close> through the inherited \<open>toString\<close>; when it has an own
  member named \<open>toString\<close>, that member is not callable, the inherited \<open>valueOf\<close> returns
  the object itself, and the conversion throws. An array prints its elements joined by
  commas, \<open>null\<close> as the empty text, and throws when an element does.
\<close>

fun to_string :: "platform \<Rightarrow> json \<Rightarrow> string option + string"
  and join_list :: "platform \<Rightarrow> json list \<Rightarrow> string option + string" where
  "to_string pf JNull = Inr ''null''"
| "to_string pf (JBool b) = Inr (if b then ''true'' else ''false'')"
| "to_string pf (JNum n) = Inr (number_to_string pf n)"
| "to_string pf (JStr t) = Inr t"
| "to_string pf (JArr vs) = join_list pf vs"
| "to_string pf (JObj kvs) =
     (if map_of kvs ''toString'' \<noteq> None then Inl (Some NO_PRIMITIVE_MESSAGE)
      else Inr ''[object Object]'')"
| "join_list pf [] = Inr []"
| "join_list pf (v # vs) =
     (case (if v = JNull then Inr [] else to_string pf v) of
        Inl m \<Rightarrow> Inl m
      | Inr t \<Rightarrow>
          if vs = [] then Inr t
          else (case join_list pf vs of Inl m \<Rightarrow> Inl m | Inr u \<Rightarrow> Inr (t @ '','' @ u)))"

text \<open>
  \<open>Number(v)\<close> of a property that may be absent: an object or an array is first
  converted to a string (a throw of that conversion is a throw of \<open>Number\<close>).
\<close>

fun Number_js :: "platform \<Rightarrow> json option \<Rightarrow> string option + jsnum" where
  "Number_js pf None = Inr NaN"
| "Number_js pf (Some JNull) = Inr (Fnum 0)"
| "Number_js pf (Some (JBool b)) = Inr (Fnum (if b then 1 else 0))"
| "Number_js pf (Some (JNum n)) = Inr n"
| "Number_js pf (Some (JStr t)) = Inr (string_to_number pf t)"
| "Number_js pf (Some (JArr vs)) =
     (case to_string pf (JArr vs) of Inl m \<Rightarrow> Inl m | Inr t \<Rightarrow> Inr (string_to_number pf t))"
| "Number_js pf (Some (JObj kvs)) =
     (case to_string pf (JObj kvs) of Inl m \<Rightarrow> Inl m | Inr t \<Rightarrow> Inr (string_to_number pf t))"

text \<open>
  The coordinates read from a record's \<open>location\<close>: the field must be truthy and of type
  object (an object or an array; an array has none of the properties read), the
  latitude is coerced before the longitude, and both numbers must not be NaN.
\<close>

definition place_coords :: "platform \<Rightarrow> Place \<Rightarrow> string option + Coordinates option" where
  "place_coords pf p =
     (case location p of
        Some (JObj kvs) \<Rightarrow>
          (case Number_js pf (nullish_or (map_of kvs ''lat'') (map_of kvs ''latitude'')) of
             Inl m \<Rightarrow> Inl m
           | Inr latv \<Rightarrow>
               (case Number_js pf (nullish_or (nullish_or (map_of kvs ''lng'') (map_of kvs ''lon''))
                                              (map_of kvs ''longitude'')) of
                  Inl m \<Rightarrow> Inl m
                | Inr lngv \<Rightarrow>
                    Inr (if latv \<noteq> NaN \<and> lngv \<noteq> NaN then Some \<lparr>lat = latv, lng = lngv\<rparr>
                         else None)))
      | _ \<Rightarrow> Inr None)"

text \<open>Truthiness of a parsed value, and \<open>TimeClip\<close>: the time value of a date, \<open>None\<close> for NaN.\<close>

fun truthy_json :: "json \<Rightarrow> bool" where
  "truthy_json JNull = False"
| "truthy_json (JBool b) = b"
| "truthy_json (JNum n) = truthy_num n"
| "truthy_json (JStr t) = (t \<noteq> [])"
| "truthy_json (JArr vs) = True"
| "truthy_json (JObj kvs) = True"

fun time_clip :: "jsnum \<Rightarrow> int option" where
  "time_clip (Fnum t) =
     (if 8640000000000000 < \<bar>t\<bar> then None else Some (if 0 \<le> t then \<lfloor>t\<rfloor> else \<lceil>t\<rceil>))"
| "time_clip x = None"

text \<open>
  The time value of \<open>new Date(v)\<close>: a string is parsed, a number or boolean is taken as
  milliseconds, an object or array is first converted to a primitive, which is its
  string or a throw.
\<close>

fun date_value :: "platform \<Rightarrow> json \<Rightarrow> string option + int option" where
  "date_value pf JNull = Inr (time_clip (Fnum 0))"
| "date_value pf (JBool b) = Inr (time_clip (Fnum (if b then 1 else 0)))"
| "date_value pf (JNum n) = Inr (time_clip n)"
| "date_value pf (JStr t) = Inr (time_clip (date_parse pf t))"
| "date_value pf (JArr vs) =
     (case to_string pf (JArr vs) of Inl m \<Rightarrow> Inl m | Inr t \<Rightarrow> Inr (time_clip (date_parse pf t)))"
| "date_value pf (JObj kvs) =
     (case to_string pf (JObj kvs) of Inl m \<Rightarrow> Inl m | Inr t \<Rightarrow> Inr (time_clip (date_parse pf t)))"

record load_acc =
  nextVisited :: "string list"
  nextCoords :: geo_object
  freshest :: "int option"

text \<open>
  The callback of \<open>arr.forEach\<close> on a record: the key, the visited mark, the coordinates
  and the freshness, in that order; \<open>Inl\<close> is a throw of one of the conversions.
\<close>

definition load_step :: "platform \<Rightarrow> string list \<Rightarrow> Place \<Rightarrow> nat \<Rightarrow> load_acc \<Rightarrow> string option + load_acc" where
  "load_step pf storedKeys p i acc =
     (let k = placeKey p i;
          visited1 = (if k \<in> set storedKeys then set_add k (nextVisited acc) else nextVisited acc)
      in case place_coords pf p of
           Inl m \<Rightarrow> Inl m
         | Inr found \<Rightarrow>
             (let coords1 = (case found of Some c \<Rightarrow> object_put k c (nextCoords acc)
                                          | None \<Rightarrow> nextCoords acc)
              in case (case scrapedAt p of
                         None \<Rightarrow> Inr None
                       | Some v \<Rightarrow> if truthy_json v then date_value pf v else Inr None) of
                   Inl m \<Rightarrow> Inl m
                 | Inr stamp \<Rightarrow>
                     Inr \<lparr>nextVisited = visited1,
                          nextCoords = coords1,
                          freshest = (case stamp of
                                        Some t \<Rightarrow> (case freshest acc of
                                                     None \<Rightarrow> Some t
                                                   | Some f \<Rightarrow> if f < t then Some t else Some f)
                                      | None \<Rightarrow> freshest acc)\<rparr>))"

text \<open>
  \<open>arr.forEach((place, idx) => ...)\<close> of the loader, from position \<open>i\<close>. \<open>placeKey\<close> reads
  \<open>place.url\<close> without a guard, so a \<open>null\<close> element throws; \<open>Inl\<close> carries the message of
  the thrown value.
\<close>

fun forEach_place ::
  "platform \<Rightarrow> string list \<Rightarrow> Place option list \<Rightarrow> nat \<Rightarrow> load_acc
     \<Rightarrow> string option + load_acc" where
  "forEach_place pf storedKeys [] i acc = Inr acc"
| "forEach_place pf storedKeys (None # rest) i acc = Inl (Some NULL_PLACE_MESSAGE)"
| "forEach_place pf storedKeys (Some p # rest) i acc =
     (case load_step pf storedKeys p i acc of
        Inl m \<Rightarrow> Inl m
      | Inr acc1 \<Rightarrow> forEach_place pf storedKeys rest (Suc i) acc1)"

text \<open>The \<open>try\<close> block of \<open>loadDataset\<close> after \<open>setLoading(true)\<close>: \<open>Inl\<close> is a throw.\<close>

definition loadDataset_try ::
  "platform \<Rightarrow> bool \<Rightarrow> fetched \<Rightarrow> app_state \<Rightarrow> string option + app_state" where
  "loadDataset_try pf cancelled res s =
     (case res of
        Fetch_rejected m \<Rightarrow> Inl m
      | Response ok status b \<Rightarrow>
          if \<not> ok then Inl (Some (''Failed to load dataset (status '' @ show_nat status @ '')''))
          else (case b of
                  Bad_json m \<Rightarrow> Inl m
                | Json_body raw \<Rightarrow>
                    (let arr = payload_array raw
                     in if arr = [] then Inl (Some ''Dataset is empty or invalid.'')
                        else if cancelled then Inr s
                        else (case forEach_place pf
                                     (read_stored_keys (localStorage s (storageKey (datasetId s))))
                                     arr 0
                                     \<lparr>nextVisited = [], nextCoords = empty_object, freshest = None\<rparr> of
                                Inl m \<Rightarrow> Inl m
                              | Inr acc \<Rightarrow>
                                  Inr (s\<lparr>data := map the arr,
                                          visited := nextVisited acc,
                                          geoCache := nextCoords acc,
                                          datasetInfo := Some \<lparr>total = length arr,
                                                                lastUpdated = freshest acc\<rparr>,
                                          seen := [],
                                          currentIdx := None,
                                          selectionSource := None,
                                          statusMessage := None,
                                          loadError := None\<rparr>)))))"

text \<open>
  \<open>loadDataset\<close> from \<open>setLoading(true)\<close> to the end of \<open>finally\<close>, on the state in which
  the response arrives; \<open>cancelled\<close> is the flag of the effect's cleanup at that moment.
\<close>

definition loadDataset :: "platform \<Rightarrow> bool \<Rightarrow> fetched \<Rightarrow> app_state \<Rightarrow> app_state" where
  "loadDataset pf cancelled res s =
     (let s0 = s\<lparr>loading := True\<rparr>;
          s1 = (case loadDataset_try pf cancelled res s0 of
                  Inr s' \<Rightarrow> s'
                | Inl m \<Rightarrow>
                    if cancelled then s0
                    else s0\<lparr>data := [],
                            visited := [],
                            geoCache := empty_object,
                            datasetInfo := None,
                            loadError := Some (case m of Some t \<Rightarrow> t | None \<Rightarrow> ''Failed to load dataset.''),
                            selectionSource := None,
                            statusMessage := None\<rparr>)
      in if \<not> cancelled then s1\<lparr>loading := False\<rparr> else s1)"

text \<open>Whether a load fails: the \<open>try\<close> block throws.\<close>

definition load_fails :: "platform \<Rightarrow> bool \<Rightarrow> fetched \<Rightarrow> app_state \<Rightarrow> bool" where
  "load_fails pf cancelled res s = isl (loadDataset_try pf cancelled res (s\<lparr>loading := True\<rparr>))"

text \<open>
  Whether the callback throws on a record; this depends neither on the stored keys, nor
  on the position, nor on what the pass has gathered.
\<close>

definition step_throws :: "platform \<Rightarrow> Place \<Rightarrow> bool" where
  "step_throws pf p =
     isl (load_step pf [] p 0 \<lparr>nextVisited = [], nextCoords = empty_object, freshest = None\<rparr>)"

section \<open>Persistence and the order of effects\<close>

text \<open>
  The body of the effect that persists the visited set,
  \<open>useEffect(..., [visited, datasetId])\<close>. It runs after the first render, after every
  update that replaces the visited set, and after every change of the dataset
  identifier.
\<close>

definition persistVisited :: "app_state \<Rightarrow> app_state" where
  "persistVisited s =
     s\<lparr>localStorage := (localStorage s)(storageKey (datasetId s) \<mapsto> Parsed (JArr (map JStr (visited s))))\<rparr>"

text \<open>
  The state of the first render, from the initial values of \<open>useState\<close>, for the
  dataset identifier read from the store and the store as the page finds it.
\<close>

definition first_render :: "DatasetId \<Rightarrow> (string \<rightharpoonup> stored) \<Rightarrow> app_state" where
  "first_render d store =
     \<lparr>datasetId = d, data = [], loadError = None, loading = True, seen = [],
      currentIdx = None, selectionSource = None, visited = [], geoCache = empty_object,
      userLocation = None, statusMessage = None, picking = False, datasetInfo = None,
      localStorage = store\<rparr>"

text \<open>
  The effects that run, in the order of their declaration, after the first render and
  after a render with a new dataset identifier: the loader starts (\<open>setLoading(true)\<close>,
  then \<open>fetch\<close>, whose response arrives later), and the persistence effect writes the
  visited set of that render under the identifier of that render. (The effect that
  stores the identifier itself writes another entry, which is not part of the state
  modelled.)
\<close>

definition dataset_effects :: "app_state \<Rightarrow> app_state" where
  "dataset_effects s = persistVisited (s\<lparr>loading := True\<rparr>)"

definition handleDatasetChange :: "DatasetId \<Rightarrow> app_state \<Rightarrow> app_state" where
  "handleDatasetChange nextId s = (if nextId = datasetId s then s else s\<lparr>datasetId := nextId\<rparr>)"

text \<open>
  A page load up to the end of the first dataset load: first render, its effects, the
  response, and the persistence effect for the visited set that the load has replaced.
\<close>

definition page_load :: "platform \<Rightarrow> DatasetId \<Rightarrow> (string \<rightharpoonup> stored) \<Rightarrow> fetched \<Rightarrow> app_state" where
  "page_load pf d store res =
     persistVisited (loadDataset pf False res (dataset_effects (first_render d store)))"

section \<open>Focused place\<close>

text \<open>\<open>data[i]\<close>: the record at a position, \<open>None\<close> (undefined) out of range.\<close>

definition data_at :: "app_state \<Rightarrow> nat \<Rightarrow> Place option" where
  "data_at s i = (if i < length (data s) then Some (data s ! i) else None)"

definition current :: "app_state \<Rightarrow> Place option" where
  "current s = (case currentIdx s of None \<Rightarrow> None | Some i \<Rightarrow> data_at s i)"

definition currentKey :: "app_state \<Rightarrow> string option" where
  "currentKey s =
     (case currentIdx s of
        None \<Rightarrow> None
      | Some i \<Rightarrow> (case data_at s i of None \<Rightarrow> None | Some p \<Rightarrow> Some (placeKey p i)))"

definition currentIsVisited :: "app_state \<Rightarrow> bool" where
  "currentIsVisited s = (if truthy_str (currentKey s) then the (currentKey s) \<in> set (visited s) else False)"

definition currentCoords :: "app_state \<Rightarrow> cache_value option" where
  "currentCoords s =
     (if truthy_str (currentKey s) then object_get (geoCache s) (the (currentKey s)) else None)"

definition currentDistance :: "app_state \<Rightarrow> jsnum option" where
  "currentDistance s =
     (if \<not> truthy_str (currentKey s) \<or> userLocation s = None then None
      else (let found = object_get (geoCache s) (the (currentKey s))
            in if \<not> truthy_value found then None
               else Some (haversineDistance (the (userLocation s)) (as_coordinates (the found)))))"

section \<open>Selection state machine\<close>

text \<open>The eligible pool of a draw: the positions, in order, whose key is not visited.\<close>

definition available :: "app_state \<Rightarrow> nat list" where
  "available s = filter (\<lambda>i. placeKey (data s ! i) i \<notin> set (visited s)) [0..<length (data s)]"

text \<open>\<open>localSeen\<close> before the exhaustion test: the seen positions that are eligible.\<close>

definition eligible_seen :: "app_state \<Rightarrow> nat list" where
  "eligible_seen s = fold (\<lambda>i acc. if i \<in> set (available s) then set_add i acc else acc) (seen s) []"

definition localSeen :: "app_state \<Rightarrow> nat list" where
  "localSeen s = (if length (available s) \<le> length (eligible_seen s) then [] else eligible_seen s)"

definition pool :: "app_state \<Rightarrow> nat list" where
  "pool s = filter (\<lambda>i. i \<notin> set (localSeen s)) (available s)"

text \<open>
  What a draw did: returned at the first guard, found every place visited, picked a
  position, or read \<open>pool\<close> out of range (the pick is \<open>undefined\<close>).
\<close>

datatype pick_outcome = Not_ready | All_visited | Drawn nat | Undefined_pick

text \<open>
  \<open>handlePickRandom\<close>; \<open>r\<close> is the value of \<open>Math.random()\<close>. The timer that clears
  \<open>picking\<close> a quarter of a second later is not part of the handler's own step. An
  \<open>undefined\<close> pick would enter the seen set as a member that is the position of no
  record and leave the focus unset; the seen list of the model does not hold it.
\<close>

definition handlePickRandom :: "real \<Rightarrow> app_state \<Rightarrow> pick_outcome \<times> app_state" where
  "handlePickRandom r s =
     (if loading s \<or> data s = [] then (Not_ready, s)
      else if available s = [] then
        (All_visited,
         s\<lparr>statusMessage := Some ''All places are marked visited. Clear visited to start over.'',
           currentIdx := None,
           selectionSource := None\<rparr>)
      else
        (let n = \<lfloor>r * real (length (pool s))\<rfloor>
         in if 0 \<le> n \<and> nat n < length (pool s) then
              (let pick = pool s ! nat n
               in (Drawn pick,
                   s\<lparr>picking := True,
                     seen := set_add pick (localSeen s),
                     currentIdx := Some pick,
                     selectionSource := Some Hero,
                     statusMessage := None\<rparr>))
            else
              (Undefined_pick,
               s\<lparr>picking := True,
                 seen := localSeen s,
                 currentIdx := None,
                 selectionSource := Some Hero,
                 statusMessage := None\<rparr>)))"

definition handleReset :: "app_state \<Rightarrow> app_state" where
  "handleReset s =
     s\<lparr>seen := [], currentIdx := None, statusMessage := Some ''Seen list cleared.'',
       selectionSource := None\<rparr>"

definition focusPlace :: "nat \<Rightarrow> app_state \<Rightarrow> app_state" where
  "focusPlace i s =
     (let s1 = (if currentIdx s = Some i
                then s\<lparr>selectionSource := None, currentIdx := None\<rparr>
                else s\<lparr>selectionSource := Some List_source, currentIdx := Some i\<rparr>)
      in s1\<lparr>seen := (if i \<in> set (seen s) then seen s else set_add i (seen s))\<rparr>)"

definition markVisited :: "app_state \<Rightarrow> app_state" where
  "markVisited s =
     (if currentIdx s = None \<or> \<not> truthy_str (currentKey s) then s
      else if the (currentKey s) \<in> set (visited s) then s
      else s\<lparr>visited := set_add (the (currentKey s)) (visited s),
             seen := set_delete (the (currentIdx s)) (seen s),
             currentIdx := None,
             statusMessage := Some ''Marked as visited.'',
             selectionSource := None\<rparr>)"

definition clearVisited :: "app_state \<Rightarrow> app_state" where
  "clearVisited s =
     s\<lparr>visited := [], seen := [], currentIdx := None,
       statusMessage := Some ''Visited places cleared.'', selectionSource := None,
       localStorage := (localStorage s)(storageKey (datasetId s) := None)\<rparr>"

text \<open>Runs of user actions that keep the dataset and never clear the visited set.\<close>

datatype action = Draw real | Focus nat | Mark | Reset

fun act :: "action \<Rightarrow> app_state \<Rightarrow> app_state" where
  "act (Draw r) s = snd (handlePickRandom r s)"
| "act (Focus i) s = focusPlace i s"
| "act Mark s = markVisited s"
| "act Reset s = handleReset s"

fun run :: "action list \<Rightarrow> app_state \<Rightarrow> app_state" where
  "run [] s = s"
| "run (a # as) s = run as (act a s)"

text \<open>The outcomes of a sequence of draws, one per value of \<open>Math.random()\<close>.\<close>

fun draws :: "real list \<Rightarrow> app_state \<Rightarrow> pick_outcome list" where
  "draws [] s = []"
| "draws (r # rs) s = fst (handlePickRandom r s) # draws rs (snd (handlePickRandom r s))"

section \<open>Nearby ranking\<close>

record nearby_entry =
  place :: Place
  idx :: nat
  distanceKm :: jsnum
  key :: string
  isVisited :: bool
  coords :: cache_value

text \<open>The callback of \<open>data.map\<close>: \<open>None\<close> is the \<open>null\<close> that the filter drops.\<close>

definition nearby_candidate :: "app_state \<Rightarrow> Coordinates \<Rightarrow> Place \<times> nat \<Rightarrow> nearby_entry option" where
  "nearby_candidate s u = (\<lambda>(p, i).
     (let k = placeKey p i;
          found = object_get (geoCache s) k
      in if \<not> truthy_value found then None
         else (let d = haversineDistance u (as_coordinates (the found))
               in if js_gt d (Fnum 2) then None
                  else Some \<lparr>place = p, idx = i, distanceKm = d, key = k,
                             isVisited = (k \<in> set (visited s)), coords = the found\<rparr>)))"

text \<open>The entries after \<open>.map(...)\<close> and \<open>.filter(...)\<close>, in the order of the records.\<close>

definition nearby_entries :: "app_state \<Rightarrow> Coordinates \<Rightarrow> nearby_entry list" where
  "nearby_entries s u = List.map_filter (nearby_candidate s u) (zip (data s) [0..<length (data s)])"

text \<open>
  \<open>.sort((a, b) => a.distanceKm - b.distanceKm)\<close>. With finite distances the comparator
  is consistent and the platform's sort is the stable sort by distance. A NaN result
  of the comparator counts as zero; when every pair compares as zero the order is
  kept. Otherwise a NaN distance stands between two different distances (a distance is
  finite or NaN), the comparator is not consistent, and the order is the
  implementation's: \<open>impl\<close>.
\<close>

fun is_fnum :: "jsnum \<Rightarrow> bool" where
  "is_fnum (Fnum a) = True"
| "is_fnum x = False"

fun fnum_value :: "jsnum \<Rightarrow> real" where
  "fnum_value (Fnum a) = a"
| "fnum_value x = 0"

definition compares_zero :: "nearby_entry \<Rightarrow> nearby_entry \<Rightarrow> bool" where
  "compares_zero a b =
     (js_sub (distanceKm a) (distanceKm b) = NaN \<or> js_sub (distanceKm a) (distanceKm b) = Fnum 0)"

definition sort_by_distance ::
  "(nearby_entry list \<Rightarrow> nearby_entry list) \<Rightarrow> nearby_entry list \<Rightarrow> nearby_entry list" where
  "sort_by_distance impl es =
     (if list_all (\<lambda>e. is_fnum (distanceKm e)) es then sort_key (\<lambda>e. fnum_value (distanceKm e)) es
      else if list_all (\<lambda>a. list_all (compares_zero a) es) es then es
      else impl es)"

text \<open>\<open>nearbyPlaces\<close>: the sorted entries, first 30; empty without a user coordinate.\<close>

definition nearbyPlaces :: "(nearby_entry list \<Rightarrow> nearby_entry list) \<Rightarrow> app_state \<Rightarrow> nearby_entry list" where
  "nearbyPlaces impl s =
     (case userLocation s of
        None \<Rightarrow> []
      | Some u \<Rightarrow> take 30 (sort_by_distance impl (nearby_entries s u)))"

section \<open>Example data\<close>

definition place_a :: Place where
  "place_a = \<lparr>title = Some ''Ah Hock'', street = Some ''1 Main St'', url = Some ''https://maps/a'',
               location = Some (JObj [(''lat'', JNum (Fnum 1)), (''lng'', JNum (Fnum 103))]),
               scrapedAt = Some (JNum (Fnum 1000))\<rparr>"

definition place_b :: Place where
  "place_b = \<lparr>title = Some ''Bee'', street = None, url = None,
               location = None, scrapedAt = None\<rparr>"

definition place_c :: Place where
  "place_c = \<lparr>title = None, street = None, url = None,
               location = Some (JObj [(''latitude'', JNum (Fnum 2)), (''lon'', JNum (Fnum 103))]),
               scrapedAt = Some (JNum (Fnum 2000))\<rparr>"

text \<open>A second record with the url of \<open>place_a\<close> and no location.\<close>

definition place_a2 :: Place where
  "place_a2 = \<lparr>title = Some ''Ah Hock (dup)'', street = None, url = Some ''https://maps/a'',
                location = None, scrapedAt = None\<rparr>"

text \<open>A record whose latitude is a word.\<close>

definition place_d :: Place where
  "place_d = \<lparr>title = Some ''Dee'', street = Some ''9 Far Rd'', url = None,
               location = Some (JObj [(''lat'', JStr ''north''), (''lng'', JNum (Fnum 103))]),
               scrapedAt = None\<rparr>"

text \<open>
  A record whose latitude is written \<open>1e400\<close>, which parses to an infinity; a record with
  no location whose url is the word \<open>constructor\<close>; a record whose latitude is an object
  with a member named \<open>toString\<close>.
\<close>

definition place_inf :: Place where
  "place_inf = \<lparr>title = Some ''Far'', street = None, url = Some ''https://maps/far'',
                 location = Some (JObj [(''lat'', JNum PInf), (''lng'', JNum (Fnum 103))]),
                 scrapedAt = None\<rparr>"

definition place_ctor :: Place where
  "place_ctor = \<lparr>title = Some ''Nowhere'', street = None, url = Some ''constructor'',
                  location = None, scrapedAt = None\<rparr>"

definition place_obj :: Place where
  "place_obj = \<lparr>title = Some ''Odd'', street = None, url = Some ''https://maps/odd'',
                 location = Some (JObj [(''lat'', JObj [(''toString'', JNum (Fnum 1))]),
                                        (''lng'', JNum (Fnum 103))]),
                 scrapedAt = None\<rparr>"

text \<open>A platform under which no string is a number or a date.\<close>

definition no_numeric_strings :: platform where
  "no_numeric_strings =
     \<lparr>string_to_number = (\<lambda>t. NaN), number_to_string = (\<lambda>n. ''0''), date_parse = (\<lambda>t. NaN)\<rparr>"

definition here :: Coordinates where
  "here = \<lparr>lat = Fnum 1, lng = Fnum 103\<rparr>"

definition north :: Coordinates where
  "north = \<lparr>lat = Fnum 2, lng = Fnum 103\<rparr>"

text \<open>The state before the first load, and a state with three records loaded.\<close>

definition initial_state :: app_state where
  "initial_state =
     \<lparr>datasetId = Singapore, data = [], loadError = None, loading = True, seen = [],
      currentIdx = None, selectionSource = None, visited = [], geoCache = empty_object,
      userLocation = None, statusMessage = None, picking = False, datasetInfo = None,
      localStorage = Map.empty\<rparr>"

definition loaded_state :: app_state where
  "loaded_state =
     \<lparr>datasetId = Singapore, data = [place_a, place_b, place_c], loadError = None,
      loading = False, seen = [], currentIdx = None, selectionSource = None, visited = [],
      geoCache = \<lparr>own_props = [''https://maps/a'' \<mapsto> here, ''index-2'' \<mapsto> north],
                  proto_coords = None\<rparr>,
      userLocation = Some here, statusMessage = None, picking = False,
      datasetInfo = Some \<lparr>total = 3, lastUpdated = Some 2000\<rparr>,
      localStorage = Map.empty\<rparr>"

text \<open>
  A store in which an earlier session left two visited keys, one of a record of the
  dataset and one of no record.
\<close>

definition earlier_store :: "string \<rightharpoonup> stored" where
  "earlier_store =
     [storageKey Singapore \<mapsto> Parsed (JArr [JStr ''https://maps/a'', JStr ''gone''])]"

section \<open>Properties of the place key\<close>

lemma placeKey_nonempty: "placeKey p i \<noteq> []"
  by (cases "url p"; cases "title p") (auto simp: placeKey_def Let_def)

text \<open>
  Claim C7. \<open>placeKey\<close> is a function of the record and the position alone and its result
  is never the empty string. It is the url when the url is present (defined and not empty);
  otherwise, when the title is present, the title, \<open>::\<close> and the street (empty when absent);
  otherwise \<open>index-\<close> followed by the position. Two records with the same non-empty url get
  the same key, whatever their other fields and positions.
\<close>

theorem placeKey_spec:
  "placeKey p i \<noteq> []
   \<and> (truthy_str (url p) \<longrightarrow> placeKey p i = the (url p))
   \<and> (\<not> truthy_str (url p) \<and> truthy_str (title p) \<longrightarrow>
        placeKey p i = the (title p) @ ''::'' @ (case street p of None \<Rightarrow> [] | Some st \<Rightarrow> st))
   \<and> (\<not> truthy_str (url p) \<and> \<not> truthy_str (title p) \<longrightarrow>
        placeKey p i = ''index-'' @ show_nat i)
   \<and> (truthy_str (url p) \<and> url q = url p \<longrightarrow> placeKey p i = placeKey q j)"
  by (cases "url p"; cases "title p") (auto simp: placeKey_def Let_def)

theorem placeKey_spec_witness:
  "placeKey \<lparr>title = Some ''Hawker'', street = None, url = Some ''https://maps/x'',
             location = None, scrapedAt = None\<rparr> 0 = ''https://maps/x''
   \<and> placeKey \<lparr>title = Some ''Hawker'', street = Some ''1 Main St'', url = Some [],
               location = None, scrapedAt = None\<rparr> 4 = ''Hawker::1 Main St''
   \<and> placeKey \<lparr>title = None, street = Some ''1 Main St'', url = None,
               location = None, scrapedAt = None\<rparr> 12 = ''index-12''
   \<and> placeKey \<lparr>title = Some ''A'', street = None, url = Some ''u'',
               location = None, scrapedAt = None\<rparr> 0
     = placeKey \<lparr>title = None, street = Some ''s'', url = Some ''u'',
               location = Some JNull, scrapedAt = Some (JNum (Fnum 5))\<rparr> 7"
  using
    placeKey_spec [of "\<lparr>title = Some ''Hawker'', street = None, url = Some ''https://maps/x'',
                        location = None, scrapedAt = None\<rparr>" 0
                      "\<lparr>title = None, street = None, url = None,
                        location = None, scrapedAt = None\<rparr>" 0]
    placeKey_spec [of "\<lparr>title = Some ''Hawker'', street = Some ''1 Main St'', url = Some [],
                        location = None, scrapedAt = None\<rparr>" 4
                      "\<lparr>title = None, street = None, url = None,
                        location = None, scrapedAt = None\<rparr>" 0]
    placeKey_spec [of "\<lparr>title = None, street = Some ''1 Main St'', url = None,
                        location = None, scrapedAt = None\<rparr>" 12
                      "\<lparr>title = None, street = None, url = None,
                        location = None, scrapedAt = None\<rparr>" 0]
    placeKey_spec [of "\<lparr>title = Some ''A'', street = None, url = Some ''u'',
                        location = None, scrapedAt = None\<rparr>" 0
                      "\<lparr>title = None, street = Some ''s'', url = Some ''u'',
                        location = Some JNull, scrapedAt = Some (JNum (Fnum 5))\<rparr>" 7]
  by (simp add: show_nat.simps placeKey_def)

section \<open>Focused place and mark-visited\<close>

lemma truthy_currentKey: "truthy_str (currentKey s) \<longleftrightarrow> current s \<noteq> None"
  by (auto simp: currentKey_def current_def placeKey_nonempty split: option.splits)

lemma current_Some_iff:
  "current s = Some p \<longleftrightarrow> (\<exists>i. currentIdx s = Some i \<and> i < length (data s) \<and> p = data s ! i)"
  by (auto simp: current_def data_at_def split: option.splits)

lemma currentKey_Some_iff:
  "currentKey s = Some k \<longleftrightarrow>
     (\<exists>i. currentIdx s = Some i \<and> i < length (data s) \<and> k = placeKey (data s ! i) i)"
  by (auto simp: currentKey_def data_at_def split: option.splits)

text \<open>
  Claim C10. When the focused index is null or does not index a loaded record, the
  current place and its key are null, its visited flag is false, and its coordinates and
  distance are absent; no read goes out of range. The current place and the current key
  are non-null only when the focused index is the position of a loaded record, and then
  they are that record and its key.
\<close>

theorem focus_unresolved_exposes_nothing:
  "((\<forall>i. currentIdx s = Some i \<longrightarrow> length (data s) \<le> i) \<longrightarrow>
      current s = None \<and> currentKey s = None \<and> \<not> currentIsVisited s
      \<and> currentCoords s = None \<and> currentDistance s = None)
   \<and> (current s \<noteq> None \<or> currentKey s \<noteq> None \<longrightarrow>
        (\<exists>i. currentIdx s = Some i \<and> i < length (data s)
             \<and> current s = Some (data s ! i) \<and> currentKey s = Some (placeKey (data s ! i) i)))"
  by (auto simp: current_def currentKey_def data_at_def currentIsVisited_def currentCoords_def
        currentDistance_def Let_def split: option.splits)

theorem focus_unresolved_exposes_nothing_witness:
  "current (loaded_state\<lparr>currentIdx := Some 3\<rparr>) = None
   \<and> currentKey (loaded_state\<lparr>currentIdx := Some 3\<rparr>) = None
   \<and> \<not> currentIsVisited (loaded_state\<lparr>currentIdx := Some 3\<rparr>)
   \<and> currentCoords (loaded_state\<lparr>currentIdx := Some 3\<rparr>) = None
   \<and> currentDistance (loaded_state\<lparr>currentIdx := Some 3\<rparr>) = None
   \<and> current (loaded_state\<lparr>currentIdx := Some 2\<rparr>) = Some place_c
   \<and> currentKey (loaded_state\<lparr>currentIdx := Some 2\<rparr>) = Some ''index-2''"
  using focus_unresolved_exposes_nothing [of "loaded_state\<lparr>currentIdx := Some 3\<rparr>"]
    focus_unresolved_exposes_nothing [of "loaded_state\<lparr>currentIdx := Some 2\<rparr>"]
  by (simp add: loaded_state_def current_def currentKey_def data_at_def placeKey_def place_c_def
        show_nat.simps)

text \<open>
  Claim C8. \<open>markVisited\<close> leaves the whole state unchanged when no place is focused or
  when the focused place's key is already visited. Otherwise it adds the key to the
  visited set, removes the focused index from the seen set, clears the focus (Idle) and
  sets the status to the confirmation message.
\<close>

theorem markVisited_spec:
  "(current s = None \<or> currentIsVisited s \<longrightarrow> markVisited s = s)
   \<and> (current s \<noteq> None \<and> \<not> currentIsVisited s \<longrightarrow>
        markVisited s =
          s\<lparr>visited := set_add (the (currentKey s)) (visited s),
            seen := set_delete (the (currentIdx s)) (seen s),
            currentIdx := None,
            statusMessage := Some ''Marked as visited.'',
            selectionSource := None\<rparr>
        \<and> set (visited (markVisited s)) = insert (the (currentKey s)) (set (visited s))
        \<and> set (seen (markVisited s)) = set (seen s) - {the (currentIdx s)}
        \<and> current (markVisited s) = None)"
  using truthy_currentKey [of s]
  by (auto simp: markVisited_def currentIsVisited_def set_add_def set_delete_def current_def)

theorem markVisited_spec_witness:
  "markVisited loaded_state = loaded_state
   \<and> markVisited (loaded_state\<lparr>currentIdx := Some 0, visited := [''https://maps/a'']\<rparr>)
       = loaded_state\<lparr>currentIdx := Some 0, visited := [''https://maps/a'']\<rparr>
   \<and> visited (markVisited (loaded_state\<lparr>currentIdx := Some 0, seen := [0, 1]\<rparr>)) = [''https://maps/a'']
   \<and> seen (markVisited (loaded_state\<lparr>currentIdx := Some 0, seen := [0, 1]\<rparr>)) = [1]
   \<and> currentIdx (markVisited (loaded_state\<lparr>currentIdx := Some 0, seen := [0, 1]\<rparr>)) = None
   \<and> statusMessage (markVisited (loaded_state\<lparr>currentIdx := Some 0, seen := [0, 1]\<rparr>))
       = Some ''Marked as visited.''"
  using markVisited_spec [of loaded_state]
    markVisited_spec [of "loaded_state\<lparr>currentIdx := Some 0, visited := [''https://maps/a'']\<rparr>"]
    markVisited_spec [of "loaded_state\<lparr>currentIdx := Some 0, seen := [0, 1]\<rparr>"]
  by (simp add: loaded_state_def current_def currentKey_def currentIsVisited_def data_at_def
        placeKey_def place_a_def set_add_def set_delete_def)

section \<open>The draw operation\<close>

lemma distinct_available: "distinct (available s)"
  by (simp add: available_def)

lemma set_available:
  "set (available s) = {i. i < length (data s) \<and> placeKey (data s ! i) i \<notin> set (visited s)}"
  by (auto simp: available_def)

lemma fold_set_add:
  "distinct acc \<Longrightarrow>
   distinct (fold (\<lambda>i acc. if P i then set_add i acc else acc) xs acc)
   \<and> set (fold (\<lambda>i acc. if P i then set_add i acc else acc) xs acc) = set acc \<union> {i \<in> set xs. P i}"
proof (induction xs arbitrary: acc)
  case Nil
  then show ?case by simp
next
  case (Cons x xs)
  have d: "distinct (if P x then set_add x acc else acc)"
    using Cons.prems by (simp add: set_add_def)
  have s: "set (if P x then set_add x acc else acc) = set acc \<union> {i \<in> {x}. P i}"
    by (auto simp: set_add_def)
  show ?case
    using Cons.IH [OF d] s by auto
qed

lemma distinct_eligible_seen: "distinct (eligible_seen s)"
  using fold_set_add [of "[]" "\<lambda>i. i \<in> set (available s)" "seen s"]
  by (simp add: eligible_seen_def)

lemma set_eligible_seen: "set (eligible_seen s) = set (seen s) \<inter> set (available s)"
  using fold_set_add [of "[]" "\<lambda>i. i \<in> set (available s)" "seen s"]
  by (auto simp: eligible_seen_def)

lemma exhausted_iff:
  "length (available s) \<le> length (eligible_seen s) \<longleftrightarrow> set (available s) \<subseteq> set (seen s)"
proof
  assume le: "length (available s) \<le> length (eligible_seen s)"
  have "card (set (available s)) \<le> card (set (eligible_seen s))"
    using le by (simp add: distinct_card distinct_available distinct_eligible_seen)
  moreover have "set (eligible_seen s) \<subseteq> set (available s)"
    by (simp add: set_eligible_seen)
  ultimately have "set (eligible_seen s) = set (available s)"
    by (simp add: card_seteq)
  then show "set (available s) \<subseteq> set (seen s)"
    by (auto simp: set_eligible_seen)
next
  assume sub: "set (available s) \<subseteq> set (seen s)"
  then have "set (eligible_seen s) = set (available s)"
    by (auto simp: set_eligible_seen)
  then have "card (set (eligible_seen s)) = card (set (available s))"
    by simp
  then show "length (available s) \<le> length (eligible_seen s)"
    by (simp add: distinct_card distinct_available distinct_eligible_seen)
qed

lemma set_localSeen:
  "set (localSeen s) = (if set (available s) \<subseteq> set (seen s) then {} else set (seen s) \<inter> set (available s))"
  by (simp add: localSeen_def exhausted_iff set_eligible_seen)

lemma distinct_localSeen: "distinct (localSeen s)"
  by (simp add: localSeen_def distinct_eligible_seen)

lemma set_pool: "set (pool s) = set (available s) - set (localSeen s)"
  by (auto simp: pool_def)

lemma pool_nonempty: "available s \<noteq> [] \<Longrightarrow> pool s \<noteq> []"
proof -
  assume ne: "available s \<noteq> []"
  have "set (available s) - set (localSeen s) \<noteq> {}"
  proof (cases "set (available s) \<subseteq> set (seen s)")
    case True
    then show ?thesis using ne by (simp add: set_localSeen)
  next
    case False
    then show ?thesis by (auto simp: set_localSeen)
  qed
  then show ?thesis
    using set_pool [of s] by auto
qed

lemma floor_index:
  assumes "0 \<le> r" "r < 1" "0 < n"
  shows "0 \<le> \<lfloor>r * real n\<rfloor> \<and> nat \<lfloor>r * real n\<rfloor> < n"
proof -
  have a: "0 \<le> r * real n" using assms by simp
  have b: "r * real n < real n" using assms by simp
  have "\<lfloor>r * real n\<rfloor> < int n"
    using b by (simp add: floor_less_iff)
  moreover have "0 \<le> \<lfloor>r * real n\<rfloor>" using a by simp
  ultimately show ?thesis by linarith
qed

lemma draw_frame:
  "data (snd (handlePickRandom r s)) = data s \<and> visited (snd (handlePickRandom r s)) = visited s
   \<and> loading (snd (handlePickRandom r s)) = loading s"
  by (simp add: handlePickRandom_def Let_def)

lemma Drawn_in_pool:
  "fst (handlePickRandom r s) = Drawn p \<Longrightarrow>
     p \<in> set (pool s) \<and> \<not> loading s \<and> seen (snd (handlePickRandom r s)) = set_add p (localSeen s)
     \<and> currentIdx (snd (handlePickRandom r s)) = Some p"
  by (auto simp: handlePickRandom_def Let_def split: if_splits)

text \<open>
  Claim C3, as amended. The draw is total. While a load is in progress or no record is
  loaded it returns at its first guard and changes nothing. Otherwise it either finds
  every place visited, and then clears the focus (Idle) and sets the all-visited status
  without touching the seen and visited sets, or it picks an index of a loaded, eligible
  record. In that last case the candidate pool is not empty, so with \<open>Math.random()\<close> in
  \<open>[0, 1)\<close> the position read is inside the pool: the draw never reads out of range.
\<close>

theorem handlePickRandom_total:
  assumes "0 \<le> r" and "r < 1"
  shows "fst (handlePickRandom r s) \<noteq> Undefined_pick
    \<and> (loading s \<or> data s = [] \<longrightarrow> handlePickRandom r s = (Not_ready, s))
    \<and> (\<not> loading s \<and> data s \<noteq> [] \<and> available s = [] \<longrightarrow>
         fst (handlePickRandom r s) = All_visited
         \<and> currentIdx (snd (handlePickRandom r s)) = None
         \<and> statusMessage (snd (handlePickRandom r s))
             = Some ''All places are marked visited. Clear visited to start over.''
         \<and> seen (snd (handlePickRandom r s)) = seen s
         \<and> visited (snd (handlePickRandom r s)) = visited s)
    \<and> (\<not> loading s \<and> data s \<noteq> [] \<and> available s \<noteq> [] \<longrightarrow>
         pool s \<noteq> []
         \<and> (\<exists>p. fst (handlePickRandom r s) = Drawn p
                \<and> p = pool s ! nat \<lfloor>r * real (length (pool s))\<rfloor>
                \<and> nat \<lfloor>r * real (length (pool s))\<rfloor> < length (pool s)
                \<and> p \<in> set (available s) \<and> p < length (data s)
                \<and> currentIdx (snd (handlePickRandom r s)) = Some p))"
proof -
  have idx: "available s \<noteq> [] \<Longrightarrow>
      0 \<le> \<lfloor>r * real (length (pool s))\<rfloor> \<and> nat \<lfloor>r * real (length (pool s))\<rfloor> < length (pool s)"
    using floor_index [OF assms, of "length (pool s)"] pool_nonempty [of s] by simp
  have mem: "available s \<noteq> [] \<Longrightarrow> pool s ! nat \<lfloor>r * real (length (pool s))\<rfloor> \<in> set (pool s)"
    using idx by simp
  have av: "available s \<noteq> [] \<Longrightarrow> pool s ! nat \<lfloor>r * real (length (pool s))\<rfloor> \<in> set (available s)"
    using mem by (auto simp: set_pool)
  have rng: "available s \<noteq> [] \<Longrightarrow> pool s ! nat \<lfloor>r * real (length (pool s))\<rfloor> < length (data s)"
    using av by (simp add: set_available)
  show ?thesis
    using idx av rng pool_nonempty [of s]
    by (auto simp: handlePickRandom_def Let_def)
qed


lemma keys_loaded:
  "placeKey place_a i = ''https://maps/a''" "placeKey place_b i = ''Bee::''"
  "placeKey place_c (Suc (Suc 0)) = ''index-2''" "placeKey place_a2 i = ''https://maps/a''"
  by (simp_all add: placeKey_def place_a_def place_b_def place_c_def place_a2_def show_nat.simps)

lemma available_loaded: "available loaded_state = [0, 1, 2]"
  by (simp add: available_def loaded_state_def)

lemma pool_loaded: "pool loaded_state = [0, 1, 2]"
  by (simp add: pool_def localSeen_def eligible_seen_def available_loaded) (simp add: loaded_state_def)

lemma draw_loaded: "fst (handlePickRandom (1 / 2) loaded_state) = Drawn 1"
  by (simp add: handlePickRandom_def available_loaded pool_loaded) (simp add: loaded_state_def)

lemma available_all_visited:
  "available (loaded_state\<lparr>visited := [''https://maps/a'', ''Bee::'', ''index-2'']\<rparr>) = []"
  by (simp add: available_def loaded_state_def keys_loaded)

theorem handlePickRandom_total_witness:
  "(0::real) \<le> 1 / 2 \<and> (1 / 2 :: real) < 1
   \<and> fst (handlePickRandom (1 / 2) loaded_state) = Drawn 1
   \<and> fst (handlePickRandom (1 / 2) (loaded_state\<lparr>visited := [''https://maps/a'', ''Bee::'', ''index-2'']\<rparr>))
       = All_visited
   \<and> handlePickRandom (1 / 2) initial_state = (Not_ready, initial_state)"
  using handlePickRandom_total [of "1 / 2" loaded_state]
    handlePickRandom_total [of "1 / 2" "loaded_state\<lparr>visited := [''https://maps/a'', ''Bee::'', ''index-2'']\<rparr>"]
    handlePickRandom_total [of "1 / 2" initial_state]
    draw_loaded available_all_visited
  by (simp add: loaded_state_def initial_state_def)

text \<open>
  Claim C3 as stated fails where no record is loaded: after a load of an empty array the
  eligible pool is empty, the pick button is enabled, and a draw neither sets a status
  message nor picks.
\<close>

theorem draw_without_records_counterexample:
  "available (loadDataset no_numeric_strings False (Response True 200 (Json_body (Top_array []))) initial_state) = []
   \<and> fst (handlePickRandom (1 / 2)
        (loadDataset no_numeric_strings False (Response True 200 (Json_body (Top_array []))) initial_state))
       = Not_ready
   \<and> statusMessage (snd (handlePickRandom (1 / 2)
        (loadDataset no_numeric_strings False (Response True 200 (Json_body (Top_array []))) initial_state)))
       = None
   \<and> \<not> loading (loadDataset no_numeric_strings False (Response True 200 (Json_body (Top_array []))) initial_state)"
  by (simp add: loadDataset_def loadDataset_try_def payload_array_def initial_state_def
        handlePickRandom_def available_def)

section \<open>Rounds of draws\<close>

lemma available_draw: "available (snd (handlePickRandom r s)) = available s"
  by (simp add: available_def draw_frame)

lemma seen_after_draw:
  "set (seen (snd (handlePickRandom r s))) \<subseteq> set (seen s) \<union> {p. fst (handlePickRandom r s) = Drawn p}"
  by (auto simp: handlePickRandom_def Let_def set_add_def set_localSeen split: if_splits)

lemma seen_kept_by_draw:
  assumes "\<not> set (available s) \<subseteq> set (seen s)" and "x \<in> set (seen s)" and "x \<in> set (available s)"
  shows "x \<in> set (seen (snd (handlePickRandom r s)))"
  using assms by (auto simp: handlePickRandom_def Let_def set_add_def set_localSeen)

lemma Drawn_in_seen:
  "fst (handlePickRandom r s) = Drawn p \<Longrightarrow> p \<in> set (seen (snd (handlePickRandom r s)))"
  by (auto simp: handlePickRandom_def Let_def set_add_def split: if_splits)

lemma Drawn_seen_exhausted:
  assumes "fst (handlePickRandom r s) = Drawn x" and "x \<in> set (seen s)"
  shows "set (available s) \<subseteq> set (seen s)"
proof (rule ccontr)
  assume ne: "\<not> set (available s) \<subseteq> set (seen s)"
  have "x \<in> set (pool s)" using Drawn_in_pool [OF assms(1)] by simp
  then have "x \<in> set (available s)" "x \<notin> set (localSeen s)" by (auto simp: set_pool)
  then show False using ne assms(2) by (simp add: set_localSeen)
qed

lemma draws_length: "length (draws rs s) = length rs"
  by (induction rs arbitrary: s) auto

lemma draws_in_available:
  "j < length rs \<Longrightarrow> draws rs s ! j = Drawn x \<Longrightarrow> x \<in> set (available s)"
proof (induction rs arbitrary: s j)
  case Nil
  then show ?case by simp
next
  case (Cons r rs)
  show ?case
  proof (cases j)
    case 0
    then have "fst (handlePickRandom r s) = Drawn x" using Cons.prems by simp
    then have "x \<in> set (pool s)" using Drawn_in_pool by blast
    then show ?thesis by (simp add: set_pool)
  next
    case (Suc j')
    then have "x \<in> set (available (snd (handlePickRandom r s)))"
      using Cons.IH [of j' "snd (handlePickRandom r s)"] Cons.prems by simp
    then show ?thesis by (simp add: available_draw)
  qed
qed

lemma drawn_before_Cons:
  "{p. \<exists>m<Suc j. draws (r # rs) s ! m = Drawn p}
     = {p. fst (handlePickRandom r s) = Drawn p}
       \<union> {p. \<exists>m<j. draws rs (snd (handlePickRandom r s)) ! m = Drawn p}"
proof -
  have "\<And>p. (\<exists>m<Suc j. draws (r # rs) s ! m = Drawn p)
        \<longleftrightarrow> fst (handlePickRandom r s) = Drawn p
            \<or> (\<exists>m<j. draws rs (snd (handlePickRandom r s)) ! m = Drawn p)"
  proof -
    fix p
    show "(\<exists>m<Suc j. draws (r # rs) s ! m = Drawn p)
        \<longleftrightarrow> fst (handlePickRandom r s) = Drawn p
            \<or> (\<exists>m<j. draws rs (snd (handlePickRandom r s)) ! m = Drawn p)"
    proof
      assume "\<exists>m<Suc j. draws (r # rs) s ! m = Drawn p"
      then obtain m where m: "m < Suc j" "draws (r # rs) s ! m = Drawn p" by blast
      show "fst (handlePickRandom r s) = Drawn p
            \<or> (\<exists>m<j. draws rs (snd (handlePickRandom r s)) ! m = Drawn p)"
      proof (cases m)
        case 0
        then show ?thesis using m by simp
      next
        case (Suc m')
        then have "m' < j" "draws rs (snd (handlePickRandom r s)) ! m' = Drawn p"
          using m by simp_all
        then show ?thesis by blast
      qed
    next
      assume "fst (handlePickRandom r s) = Drawn p
            \<or> (\<exists>m<j. draws rs (snd (handlePickRandom r s)) ! m = Drawn p)"
      then show "\<exists>m<Suc j. draws (r # rs) s ! m = Drawn p"
      proof
        assume "fst (handlePickRandom r s) = Drawn p"
        then have "draws (r # rs) s ! 0 = Drawn p" by simp
        then show ?thesis by blast
      next
        assume "\<exists>m<j. draws rs (snd (handlePickRandom r s)) ! m = Drawn p"
        then obtain m where "m < j" "draws rs (snd (handlePickRandom r s)) ! m = Drawn p" by blast
        then have "Suc m < Suc j" "draws (r # rs) s ! Suc m = Drawn p" by simp_all
        then show ?thesis by blast
      qed
    qed
  qed
  then show ?thesis by blast
qed

lemma seen_redrawn:
  "x \<in> set (seen s) \<Longrightarrow> j < length rs \<Longrightarrow> draws rs s ! j = Drawn x \<Longrightarrow>
     set (available s) \<subseteq> set (seen s) \<union> {p. \<exists>m<j. draws rs s ! m = Drawn p}"
proof (induction rs arbitrary: s j)
  case Nil
  then show ?case by simp
next
  case (Cons r rs)
  let ?s' = "snd (handlePickRandom r s)"
  show ?case
  proof (cases j)
    case 0
    then have "fst (handlePickRandom r s) = Drawn x" using Cons.prems by simp
    then have "set (available s) \<subseteq> set (seen s)"
      using Drawn_seen_exhausted Cons.prems(1) by blast
    then show ?thesis by blast
  next
    case (Suc j')
    show ?thesis
    proof (cases "set (available s) \<subseteq> set (seen s)")
      case True
      then show ?thesis by blast
    next
      case False
      have j': "j' < length rs" "draws rs ?s' ! j' = Drawn x"
        using Cons.prems Suc by simp_all
      have "x \<in> set (available ?s')" using draws_in_available [OF j'] .
      then have "x \<in> set (available s)" by (simp add: available_draw)
      then have "x \<in> set (seen ?s')"
        using seen_kept_by_draw [OF False Cons.prems(1)] by simp
      then have "set (available ?s') \<subseteq> set (seen ?s') \<union> {p. \<exists>m<j'. draws rs ?s' ! m = Drawn p}"
        using Cons.IH [of ?s' j'] j' by simp
      then have "set (available s) \<subseteq> set (seen s) \<union> ({p. fst (handlePickRandom r s) = Drawn p}
                   \<union> {p. \<exists>m<j'. draws rs ?s' ! m = Drawn p})"
        using seen_after_draw [of r s] by (auto simp: available_draw)
      then show ?thesis
        unfolding Suc drawn_before_Cons by simp
    qed
  qed
qed

lemma no_repeat_in_round:
  "i < j \<Longrightarrow> j < length rs \<Longrightarrow> draws rs s ! i = Drawn x \<Longrightarrow> draws rs s ! j = Drawn x \<Longrightarrow>
     set (available s) \<subseteq> set (seen s) \<union> {p. \<exists>m<j. draws rs s ! m = Drawn p}"
proof (induction rs arbitrary: s i j)
  case Nil
  then show ?case by simp
next
  case (Cons r rs)
  let ?s' = "snd (handlePickRandom r s)"
  obtain j' where j: "j = Suc j'" using Cons.prems(1) by (cases j) auto
  have j': "j' < length rs" "draws rs ?s' ! j' = Drawn x"
    using Cons.prems j by simp_all
  have "set (available ?s') \<subseteq> set (seen ?s') \<union> {p. \<exists>m<j'. draws rs ?s' ! m = Drawn p}"
  proof (cases i)
    case 0
    then have "fst (handlePickRandom r s) = Drawn x" using Cons.prems by simp
    then have "x \<in> set (seen ?s')" by (rule Drawn_in_seen)
    then show ?thesis using seen_redrawn [of x ?s' j' rs] j' by simp
  next
    case (Suc i')
    then have "i' < j'" "draws rs ?s' ! i' = Drawn x" using Cons.prems j by simp_all
    then show ?thesis using Cons.IH [of i' j' ?s'] j' by simp
  qed
  then have "set (available s) \<subseteq> set (seen s) \<union> ({p. fst (handlePickRandom r s) = Drawn p}
               \<union> {p. \<exists>m<j'. draws rs ?s' ! m = Drawn p})"
    using seen_after_draw [of r s] by (auto simp: available_draw)
  then show ?case
    unfolding j drawn_before_Cons by simp
qed

lemma draw_step_seen:
  assumes "fst (handlePickRandom r s) = Drawn p"
  shows "p \<in> set (seen (snd (handlePickRandom r s)))
     \<and> (if set (available s) \<subseteq> set (seen s)
         then seen (snd (handlePickRandom r s)) = [p]
         else p \<notin> set (seen s)
              \<and> set (seen (snd (handlePickRandom r s))) = insert p (set (seen s) \<inter> set (available s)))"
proof -
  have p: "p \<in> set (pool s)" and sn: "seen (snd (handlePickRandom r s)) = set_add p (localSeen s)"
    using Drawn_in_pool [OF assms] by simp_all
  have pa: "p \<in> set (available s)" "p \<notin> set (localSeen s)" using p by (auto simp: set_pool)
  show ?thesis
  proof (cases "set (available s) \<subseteq> set (seen s)")
    case True
    then have "localSeen s = []" using set_localSeen [of s] by simp
    then show ?thesis using True sn by (simp add: set_add_def)
  next
    case False
    then have ls: "set (localSeen s) = set (seen s) \<inter> set (available s)" by (simp add: set_localSeen)
    then have "p \<notin> set (seen s)" using pa by simp
    moreover have "set (seen (snd (handlePickRandom r s))) = insert p (set (seen s) \<inter> set (available s))"
      using sn ls pa by (auto simp: set_add_def)
    ultimately show ?thesis using False by simp
  qed
qed


text \<open>
  Claim C1. The dataset and the visited set are fixed (a draw changes neither). Across
  any sequence of draws, when a position is drawn a second time, every eligible position
  has by then been shown: it was in the seen set when the sequence started or it was
  drawn earlier in the sequence. When the sequence starts with no eligible position seen
  (after a load or a reset) this reads: no eligible position is drawn twice before every
  eligible position has been drawn at least once. Each draw puts its pick into the seen
  set; when the seen positions cover the eligible pool, the seen set is cleared first and
  the pick starts a fresh round, otherwise the pick is a position not seen so far and
  joins the eligible seen positions.
\<close>

theorem draws_no_repeat_before_exhaustion:
  "(i < j \<and> j < length rs \<and> draws rs s ! i = Drawn x \<and> draws rs s ! j = Drawn x \<longrightarrow>
      set (available s) \<subseteq> set (seen s) \<union> {p. \<exists>m<j. draws rs s ! m = Drawn p})
   \<and> (set (seen s) \<inter> set (available s) = {} \<and> i < j \<and> j < length rs
        \<and> draws rs s ! i = Drawn x \<and> draws rs s ! j = Drawn x \<longrightarrow>
      set (available s) \<subseteq> {p. \<exists>m<j. draws rs s ! m = Drawn p})
   \<and> (fst (handlePickRandom r s) = Drawn p \<longrightarrow>
        p \<in> set (seen (snd (handlePickRandom r s)))
        \<and> (if set (available s) \<subseteq> set (seen s)
            then seen (snd (handlePickRandom r s)) = [p]
            else p \<notin> set (seen s)
                 \<and> set (seen (snd (handlePickRandom r s)))
                     = insert p (set (seen s) \<inter> set (available s))))"
proof -
  have a: "i < j \<and> j < length rs \<and> draws rs s ! i = Drawn x \<and> draws rs s ! j = Drawn x \<longrightarrow>
      set (available s) \<subseteq> set (seen s) \<union> {p. \<exists>m<j. draws rs s ! m = Drawn p}"
    using no_repeat_in_round [of i j rs s x] by blast
  have b: "set (seen s) \<inter> set (available s) = {} \<and> i < j \<and> j < length rs
        \<and> draws rs s ! i = Drawn x \<and> draws rs s ! j = Drawn x \<longrightarrow>
      set (available s) \<subseteq> {p. \<exists>m<j. draws rs s ! m = Drawn p}"
    using a by blast
  show ?thesis
    using a b draw_step_seen [of r s p] by blast
qed

lemma draws_loaded:
  "draws [1 / 2, 0, 0, 0] loaded_state = [Drawn 1, Drawn 0, Drawn 2, Drawn 0]"
  by (simp add: handlePickRandom_def pool_def localSeen_def eligible_seen_def available_def
        set_add_def loaded_state_def keys_loaded)


lemma seen_loaded: "seen loaded_state = []"
  by (simp add: loaded_state_def)

lemma first_draw_seen: "seen (snd (handlePickRandom (1 / 2) loaded_state)) = [1]"
  by (simp add: handlePickRandom_def pool_loaded available_loaded)
     (simp add: localSeen_def eligible_seen_def set_add_def loaded_state_def)

theorem draws_no_repeat_before_exhaustion_witness:
  "draws [1 / 2, 0, 0, 0] loaded_state ! 1 = Drawn 0
   \<and> draws [1 / 2, 0, 0, 0] loaded_state ! 3 = Drawn 0
   \<and> set (available loaded_state) \<subseteq> {p. \<exists>m<3. draws [1 / 2, 0, 0, 0] loaded_state ! m = Drawn p}
   \<and> fst (handlePickRandom (1 / 2) loaded_state) = Drawn 1
   \<and> seen (snd (handlePickRandom (1 / 2) loaded_state)) = [1]"
  using draws_no_repeat_before_exhaustion
          [where i = 1 and j = 3 and rs = "[1 / 2, 0, 0, 0]" and s = loaded_state and x = 0
             and r = "1 / 2" and p = 1]
    draws_loaded seen_loaded draw_loaded first_draw_seen
  by simp

section \<open>Visited places are never drawn\<close>

lemma act_data: "data (act a s) = data s"
  by (cases a) (simp_all add: draw_frame focusPlace_def markVisited_def handleReset_def Let_def)

lemma act_visited: "set (visited s) \<subseteq> set (visited (act a s))"
  by (cases a) (auto simp: draw_frame focusPlace_def markVisited_def handleReset_def Let_def set_add_def)

lemma run_data: "data (run acts s) = data s"
  by (induction acts arbitrary: s) (simp_all add: act_data)

lemma run_visited: "set (visited s) \<subseteq> set (visited (run acts s))"
proof (induction acts arbitrary: s)
  case Nil
  then show ?case by simp
next
  case (Cons a acts)
  have "set (visited s) \<subseteq> set (visited (act a s))" by (rule act_visited)
  also have "\<dots> \<subseteq> set (visited (run acts (act a s)))" by (rule Cons.IH)
  finally show ?case by simp
qed

lemma Drawn_not_visited:
  assumes "fst (handlePickRandom r s) = Drawn p"
  shows "p < length (data s) \<and> placeKey (data s ! p) p \<notin> set (visited s)"
proof -
  have "p \<in> set (pool s)" using Drawn_in_pool [OF assms] by simp
  then have "p \<in> set (available s)" by (simp add: set_pool)
  then show ?thesis by (simp add: set_available)
qed

text \<open>
  Claim C2. In every state, a draw never picks a position whose place key is in the
  visited set. A key that is in the visited set stays there through every later draw,
  list focus, mark-visited and reset-seen action (only clear-visited and a dataset load
  replace the set), so the position of a visited key is outside the eligible pool of
  every later draw and is never drawn.
\<close>

theorem visited_never_drawn:
  "(fst (handlePickRandom r (run acts s)) = Drawn p \<longrightarrow>
      p < length (data s)
      \<and> placeKey (data s ! p) p \<notin> set (visited (run acts s))
      \<and> placeKey (data s ! p) p \<notin> set (visited s))
   \<and> (i < length (data s) \<and> placeKey (data s ! i) i \<in> set (visited s) \<longrightarrow>
        i \<notin> set (available (run acts s)) \<and> fst (handlePickRandom r (run acts s)) \<noteq> Drawn i)"
proof -
  have a: "fst (handlePickRandom r (run acts s)) = Drawn p \<Longrightarrow>
      p < length (data s) \<and> placeKey (data s ! p) p \<notin> set (visited (run acts s))" for p
    using Drawn_not_visited [of r "run acts s" p] by (simp add: run_data)
  have b: "k \<notin> set (visited (run acts s)) \<Longrightarrow> k \<notin> set (visited s)" for k
    using run_visited [of s acts] by blast
  have c: "placeKey (data s ! i) i \<in> set (visited s) \<Longrightarrow> i \<notin> set (available (run acts s))"
    using run_visited [of s acts] by (auto simp: set_available run_data)
  show ?thesis
    using a b c by blast
qed

lemma marked_state:
  "visited (markVisited (loaded_state\<lparr>currentIdx := Some 1\<rparr>)) = [''Bee::'']"
  by (simp add: markVisited_def currentKey_def data_at_def loaded_state_def keys_loaded set_add_def)

lemma data_marked_state:
  "data (markVisited (loaded_state\<lparr>currentIdx := Some 1\<rparr>)) = [place_a, place_b, place_c]"
  by (simp add: markVisited_def loaded_state_def)

lemma draw_after_run:
  "fst (handlePickRandom (1 / 2)
         (run [Draw 0, Focus 1, Mark, Reset] (markVisited (loaded_state\<lparr>currentIdx := Some 1\<rparr>))))
     = Drawn 2"
  by (simp add: handlePickRandom_def pool_def localSeen_def eligible_seen_def available_def
        set_add_def set_delete_def loaded_state_def keys_loaded markVisited_def currentKey_def
        data_at_def focusPlace_def handleReset_def)

theorem visited_never_drawn_witness:
  "fst (handlePickRandom (1 / 2)
         (run [Draw 0, Focus 1, Mark, Reset] (markVisited (loaded_state\<lparr>currentIdx := Some 1\<rparr>))))
     = Drawn 2
   \<and> placeKey place_b 1 \<in> set (visited (markVisited (loaded_state\<lparr>currentIdx := Some 1\<rparr>)))
   \<and> placeKey place_c 2
        \<notin> set (visited (run [Draw 0, Focus 1, Mark, Reset]
                          (markVisited (loaded_state\<lparr>currentIdx := Some 1\<rparr>))))
   \<and> 1 \<notin> set (available (run [Draw 0, Focus 1, Mark, Reset]
                            (markVisited (loaded_state\<lparr>currentIdx := Some 1\<rparr>))))"
  using visited_never_drawn
          [where r = "1 / 2" and acts = "[Draw 0, Focus 1, Mark, Reset]"
             and s = "markVisited (loaded_state\<lparr>currentIdx := Some 1\<rparr>)" and p = 2 and i = 1]
    draw_after_run marked_state data_marked_state
  by (simp add: keys_loaded)

section \<open>The loader pass over the records\<close>

lemma load_step_throws: "isl (load_step pf ks p i acc) \<longleftrightarrow> step_throws pf p"
  by (auto simp: step_throws_def load_step_def Let_def split: sum.splits option.splits)

lemma step_throws_iff:
  "step_throws pf p \<longleftrightarrow>
     isl (place_coords pf p)
     \<or> (\<exists>v. scrapedAt p = Some v \<and> truthy_json v \<and> isl (date_value pf v))"
  by (auto simp: step_throws_def load_step_def Let_def split: sum.splits option.splits)

lemma load_step_result:
  assumes "\<not> step_throws pf p"
  shows "\<exists>found acc1. place_coords pf p = Inr found \<and> load_step pf ks p i acc = Inr acc1
     \<and> nextVisited acc1
         = (if placeKey p i \<in> set ks then set_add (placeKey p i) (nextVisited acc) else nextVisited acc)
     \<and> nextCoords acc1
         = (case found of Some c \<Rightarrow> object_put (placeKey p i) c (nextCoords acc) | None \<Rightarrow> nextCoords acc)"
proof -
  obtain found where f: "place_coords pf p = Inr found"
    using assms by (cases "place_coords pf p") (auto simp: step_throws_iff)
  obtain acc1 where a: "load_step pf ks p i acc = Inr acc1"
    using assms load_step_throws [of pf ks p i acc] by (cases "load_step pf ks p i acc") auto
  show ?thesis
    using f a by (auto simp: load_step_def Let_def split: sum.splits option.splits)
qed

lemma forEach_null: "None \<in> set arr \<Longrightarrow> isl (forEach_place pf ks arr i acc)"
proof (induction arr arbitrary: i acc)
  case Nil
  then show ?case by simp
next
  case (Cons a arr)
  then show ?case by (cases a) (auto split: sum.splits)
qed

lemma forEach_throwing:
  "Some p \<in> set arr \<Longrightarrow> step_throws pf p \<Longrightarrow> isl (forEach_place pf ks arr i acc)"
proof (induction arr arbitrary: i acc)
  case Nil
  then show ?case by simp
next
  case (Cons a arr)
  show ?case
  proof (cases a)
    case None
    then show ?thesis by simp
  next
    case (Some q)
    show ?thesis
    proof (cases "load_step pf ks q i acc")
      case (Inl m)
      then show ?thesis using Some by simp
    next
      case (Inr acc1)
      then have nq: "\<not> step_throws pf q" using load_step_throws [of pf ks q i acc] by simp
      then have "Some p \<in> set arr" using Cons.prems Some by auto
      then show ?thesis using Cons.IH Cons.prems(2) Some Inr by simp
    qed
  qed
qed

lemma ex_less_Suc_shift:
  "(\<exists>j<Suc n. P j) \<longleftrightarrow> P 0 \<or> (\<exists>j<n. P (Suc j))"
  by (metis less_Suc_eq_0_disj)

lemma all_less_Suc_shift:
  "(\<forall>j<Suc n. P j) \<longleftrightarrow> P 0 \<and> (\<forall>j<n. P (Suc j))"
  by (metis less_Suc_eq_0_disj)

lemma own_props_put:
  "own_props (object_put k c g) k'
     = (if k' = k \<and> k \<noteq> ''__proto__'' then Some c else own_props g k')"
  by (simp add: object_put_def)

lemma forEach_records:
  "list_all (\<lambda>p. \<not> step_throws pf p) ps \<Longrightarrow>
   \<exists>acc'. forEach_place pf ks (map Some ps) i acc = Inr acc'
     \<and> set (nextVisited acc')
         = set (nextVisited acc) \<union> {k \<in> set ks. \<exists>j<length ps. k = placeKey (ps ! j) (i + j)}
     \<and> (\<forall>k c. own_props (nextCoords acc') k = Some c \<longrightarrow>
           own_props (nextCoords acc) k = Some c
           \<or> (\<exists>j<length ps. placeKey (ps ! j) (i + j) = k \<and> place_coords pf (ps ! j) = Inr (Some c)))
     \<and> (\<forall>k. own_props (nextCoords acc) k \<noteq> None \<longrightarrow> own_props (nextCoords acc') k \<noteq> None)
     \<and> (\<forall>j<length ps. placeKey (ps ! j) (i + j) \<noteq> ''__proto__''
             \<and> (\<exists>c. place_coords pf (ps ! j) = Inr (Some c)) \<longrightarrow>
           own_props (nextCoords acc') (placeKey (ps ! j) (i + j)) \<noteq> None)"
proof (induction ps arbitrary: i acc)
  case Nil
  then show ?case by simp
next
  case (Cons p ps)
  have np: "\<not> step_throws pf p" and rest: "list_all (\<lambda>p. \<not> step_throws pf p) ps"
    using Cons.prems by simp_all
  obtain found acc1 where f: "place_coords pf p = Inr found"
    and st: "load_step pf ks p i acc = Inr acc1"
    and v1: "nextVisited acc1
         = (if placeKey p i \<in> set ks then set_add (placeKey p i) (nextVisited acc) else nextVisited acc)"
    and k1: "nextCoords acc1
         = (case found of Some c \<Rightarrow> object_put (placeKey p i) c (nextCoords acc) | None \<Rightarrow> nextCoords acc)"
    using load_step_result [OF np, of ks i acc] by blast
  have sv: "set (nextVisited acc1)
     = set (nextVisited acc) \<union> (if placeKey p i \<in> set ks then {placeKey p i} else {})"
    by (auto simp: v1 set_add_def)
  have sc: "own_props (nextCoords acc1) k
     = (if k = placeKey p i \<and> placeKey p i \<noteq> ''__proto__'' \<and> found \<noteq> None then found
        else own_props (nextCoords acc) k)" for k
    by (cases found) (auto simp: k1 own_props_put)
  obtain acc' where r: "forEach_place pf ks (map Some ps) (Suc i) acc1 = Inr acc'"
    and v: "set (nextVisited acc')
         = set (nextVisited acc1) \<union> {k \<in> set ks. \<exists>j<length ps. k = placeKey (ps ! j) (Suc i + j)}"
    and c1: "\<forall>k c. own_props (nextCoords acc') k = Some c \<longrightarrow>
           own_props (nextCoords acc1) k = Some c
           \<or> (\<exists>j<length ps. placeKey (ps ! j) (Suc i + j) = k \<and> place_coords pf (ps ! j) = Inr (Some c))"
    and c2: "\<forall>k. own_props (nextCoords acc1) k \<noteq> None \<longrightarrow> own_props (nextCoords acc') k \<noteq> None"
    and c3: "\<forall>j<length ps. placeKey (ps ! j) (Suc i + j) \<noteq> ''__proto__''
             \<and> (\<exists>c. place_coords pf (ps ! j) = Inr (Some c)) \<longrightarrow>
           own_props (nextCoords acc') (placeKey (ps ! j) (Suc i + j)) \<noteq> None"
    using Cons.IH [OF rest, of "Suc i" acc1] by blast
  have g1: "forEach_place pf ks (map Some (p # ps)) i acc = Inr acc'"
    using r st by simp
  have g2: "set (nextVisited acc')
         = set (nextVisited acc) \<union> {k \<in> set ks. \<exists>j<length (p # ps). k = placeKey ((p # ps) ! j) (i + j)}"
    unfolding v sv by (auto simp: ex_less_Suc_shift)
  have g3: "\<forall>k c. own_props (nextCoords acc') k = Some c \<longrightarrow>
           own_props (nextCoords acc) k = Some c
           \<or> (\<exists>j<length (p # ps). placeKey ((p # ps) ! j) (i + j) = k
                 \<and> place_coords pf ((p # ps) ! j) = Inr (Some c))"
  proof (intro allI impI)
    fix k c
    assume "own_props (nextCoords acc') k = Some c"
    then consider "own_props (nextCoords acc1) k = Some c"
      | "\<exists>j<length ps. placeKey (ps ! j) (Suc i + j) = k \<and> place_coords pf (ps ! j) = Inr (Some c)"
      using c1 by blast
    then show "own_props (nextCoords acc) k = Some c
           \<or> (\<exists>j<length (p # ps). placeKey ((p # ps) ! j) (i + j) = k
                 \<and> place_coords pf ((p # ps) ! j) = Inr (Some c))"
    proof cases
      case 1
      then show ?thesis
        using f by (auto simp: sc ex_less_Suc_shift split: if_splits)
    next
      case 2
      then show ?thesis by (auto simp: ex_less_Suc_shift)
    qed
  qed
  have g4: "\<forall>k. own_props (nextCoords acc) k \<noteq> None \<longrightarrow> own_props (nextCoords acc') k \<noteq> None"
    using c2 by (auto simp: sc)
  have g5: "\<forall>j<length (p # ps). placeKey ((p # ps) ! j) (i + j) \<noteq> ''__proto__''
             \<and> (\<exists>c. place_coords pf ((p # ps) ! j) = Inr (Some c)) \<longrightarrow>
           own_props (nextCoords acc') (placeKey ((p # ps) ! j) (i + j)) \<noteq> None"
  proof -
    have "placeKey p i \<noteq> ''__proto__'' \<and> (\<exists>c. place_coords pf p = Inr (Some c)) \<longrightarrow>
        own_props (nextCoords acc') (placeKey p i) \<noteq> None"
      using c2 f by (auto simp: sc)
    then show ?thesis using c3 by (simp add: all_less_Suc_shift)
  qed
  show ?case using g1 g2 g3 g4 g5 by blast
qed

lemma no_null_records: "None \<notin> set arr \<Longrightarrow> arr = map Some (map the arr)"
  by (induction arr) auto

lemma forEach_fails_iff:
  "isl (forEach_place pf ks arr i acc)
     \<longleftrightarrow> None \<in> set arr \<or> (\<exists>p. Some p \<in> set arr \<and> step_throws pf p)"
proof (cases "None \<in> set arr \<or> (\<exists>p. Some p \<in> set arr \<and> step_throws pf p)")
  case True
  then show ?thesis using forEach_null forEach_throwing by blast
next
  case False
  then have "None \<notin> set arr" by blast
  then have eq: "arr = map Some (map the arr)" by (rule no_null_records)
  have "list_all (\<lambda>p. \<not> step_throws pf p) (map the arr)"
  proof -
    have "\<And>p. p \<in> set (map the arr) \<Longrightarrow> \<not> step_throws pf p"
    proof -
      fix p assume "p \<in> set (map the arr)"
      then have "Some p \<in> set (map Some (map the arr))" by auto
      then have "Some p \<in> set arr" by (subst eq)
      then show "\<not> step_throws pf p" using False by blast
    qed
    then show ?thesis by (simp add: list_all_iff)
  qed
  then obtain acc' where "forEach_place pf ks (map Some (map the arr)) i acc = Inr acc'"
    using forEach_records [of pf "map the arr" ks i acc] by blast
  then have "forEach_place pf ks arr i acc = Inr acc'" using eq by simp
  then show ?thesis using False by simp
qed

lemma load_fails_iff:
  "load_fails pf False res s \<longleftrightarrow>
     (case res of
        Fetch_rejected m \<Rightarrow> True
      | Response ok st b \<Rightarrow>
          \<not> ok \<or> (case b of
                     Bad_json m \<Rightarrow> True
                   | Json_body raw \<Rightarrow>
                       payload_array raw = [] \<or> None \<in> set (payload_array raw)
                       \<or> (\<exists>p. Some p \<in> set (payload_array raw) \<and> step_throws pf p)))"
proof (cases res)
  case (Fetch_rejected m)
  then show ?thesis by (simp add: load_fails_def loadDataset_try_def)
next
  case (Response ok st b)
  show ?thesis
  proof (cases b)
    case (Bad_json m)
    then show ?thesis using Response by (simp add: load_fails_def loadDataset_try_def)
  next
    case (Json_body raw)
    let ?fe = "forEach_place pf (read_stored_keys (localStorage s (storageKey (datasetId s))))
                 (payload_array raw) 0 \<lparr>nextVisited = [], nextCoords = empty_object, freshest = None\<rparr>"
    have fe: "isl ?fe \<longleftrightarrow> None \<in> set (payload_array raw)
                \<or> (\<exists>p. Some p \<in> set (payload_array raw) \<and> step_throws pf p)"
      by (rule forEach_fails_iff)
    show ?thesis
    proof (cases ?fe)
      case (Inl m)
      then have "None \<in> set (payload_array raw)
                \<or> (\<exists>p. Some p \<in> set (payload_array raw) \<and> step_throws pf p)" using fe by simp
      then show ?thesis
        using Response Json_body Inl
        by (simp add: load_fails_def loadDataset_try_def Let_def)
    next
      case (Inr acc)
      then have "\<not> (None \<in> set (payload_array raw)
                \<or> (\<exists>p. Some p \<in> set (payload_array raw) \<and> step_throws pf p))" using fe by simp
      then show ?thesis
        using Response Json_body Inr
        by (simp add: load_fails_def loadDataset_try_def Let_def)
    qed
  qed
qed

lemma loadDataset_failure_state:
  assumes "load_fails pf False res s"
  shows "data (loadDataset pf False res s) = []
    \<and> visited (loadDataset pf False res s) = []
    \<and> geoCache (loadDataset pf False res s) = empty_object
    \<and> datasetInfo (loadDataset pf False res s) = None
    \<and> loadError (loadDataset pf False res s) \<noteq> None
    \<and> selectionSource (loadDataset pf False res s) = None
    \<and> statusMessage (loadDataset pf False res s) = None
    \<and> \<not> loading (loadDataset pf False res s)"
proof -
  obtain m where "loadDataset_try pf False res (s\<lparr>loading := True\<rparr>) = Inl m"
    using assms by (cases "loadDataset_try pf False res (s\<lparr>loading := True\<rparr>)")
      (auto simp: load_fails_def)
  then show ?thesis by (simp add: loadDataset_def Let_def)
qed

lemma loadDataset_success:
  assumes "\<not> load_fails pf False res s"
  shows "\<exists>st raw ps acc.
      res = Response True st (Json_body raw) \<and> payload_array raw = map Some ps \<and> ps \<noteq> []
      \<and> list_all (\<lambda>p. \<not> step_throws pf p) ps
      \<and> forEach_place pf (read_stored_keys (localStorage s (storageKey (datasetId s))))
            (map Some ps) 0 \<lparr>nextVisited = [], nextCoords = empty_object, freshest = None\<rparr> = Inr acc
      \<and> loadDataset pf False res s
          = s\<lparr>loading := False, data := ps, visited := nextVisited acc, geoCache := nextCoords acc,
              datasetInfo := Some \<lparr>total = length ps, lastUpdated = freshest acc\<rparr>,
              seen := [], currentIdx := None, selectionSource := None, statusMessage := None,
              loadError := None\<rparr>"
proof -
  obtain st raw where res: "res = Response True st (Json_body raw)"
    and ne: "payload_array raw \<noteq> []" and nn: "None \<notin> set (payload_array raw)"
    and nt: "\<not> (\<exists>p. Some p \<in> set (payload_array raw) \<and> step_throws pf p)"
    using assms unfolding load_fails_iff
    by (cases res) (auto split: body.splits)
  define ps where "ps = map the (payload_array raw)"
  have arr: "payload_array raw = map Some ps"
    unfolding ps_def using nn by (rule no_null_records)
  have pne: "ps \<noteq> []" using ne arr by auto
  have "\<And>p. p \<in> set ps \<Longrightarrow> \<not> step_throws pf p"
  proof -
    fix p assume "p \<in> set ps"
    then have "Some p \<in> set (map Some ps)" by auto
    then show "\<not> step_throws pf p" using nt arr by auto
  qed
  then have ok: "list_all (\<lambda>p. \<not> step_throws pf p) ps" by (simp add: list_all_iff)
  obtain acc where acc: "forEach_place pf (read_stored_keys (localStorage s (storageKey (datasetId s))))
            (map Some ps) 0 \<lparr>nextVisited = [], nextCoords = empty_object, freshest = None\<rparr> = Inr acc"
    using forEach_records [OF ok, of _ 0] by blast
  have "loadDataset pf False res s
          = s\<lparr>loading := False, data := ps, visited := nextVisited acc, geoCache := nextCoords acc,
              datasetInfo := Some \<lparr>total = length ps, lastUpdated = freshest acc\<rparr>,
              seen := [], currentIdx := None, selectionSource := None, statusMessage := None,
              loadError := None\<rparr>"
    using acc pne by (simp add: loadDataset_def loadDataset_try_def res arr Let_def comp_def)
  then show ?thesis using res arr pne ok acc by blast
qed

lemma read_stored_keys_strings: "read_stored_keys (Some (Parsed (JArr (map JStr ks)))) = ks"
proof -
  have "List.map_filter (\<lambda>v. case v of JStr k \<Rightarrow> Some k | _ \<Rightarrow> None) (map JStr ks) = ks"
    by (induction ks) simp_all
  then show ?thesis by (simp add: read_stored_keys_def)
qed

lemma read_stored_keys_not_array:
  "(\<forall>vs. raw \<noteq> Some (Parsed (JArr vs))) \<Longrightarrow> read_stored_keys raw = []"
  by (auto simp: read_stored_keys_def split: option.splits stored.splits json.splits)

section \<open>What a load leaves behind\<close>

text \<open>
  Claim C4, at a payload with a \<open>null\<close> element. The response is a success and the
  payload is a non-empty array, yet the load fails: \<open>placeKey\<close> reads \<open>place.url\<close> of
  \<open>null\<close>, the \<open>TypeError\<close> is caught, and the state is the empty one with the error's
  message. (The same callback guards \<open>place && place.scrapedAt\<close>, and the pick loop
  skips falsy records.) A load also fails when a conversion in the callback throws;
  apart from these two the load fails exactly when the response is no success or the
  payload is no non-empty array (\<open>load_fails_iff\<close>), and every failure leaves the
  empty state (\<open>loadDataset_failure_state\<close>).
\<close>

theorem loadDataset_null_record_fails:
  "payload_array (Top_array [Some place_a, None]) \<noteq> []
   \<and> load_fails s2n False (Response True 200 (Json_body (Top_array [Some place_a, None]))) s
   \<and> data (loadDataset s2n False (Response True 200 (Json_body (Top_array [Some place_a, None]))) s) = []
   \<and> datasetInfo (loadDataset s2n False (Response True 200 (Json_body (Top_array [Some place_a, None]))) s)
       = None
   \<and> loadError (loadDataset s2n False (Response True 200 (Json_body (Top_array [Some place_a, None]))) s)
       = Some NULL_PLACE_MESSAGE"
proof -
  have st: "\<exists>acc1. load_step s2n ks place_a 0 acc = Inr acc1" for ks acc
    by (simp add: load_step_def place_coords_def place_a_def nullish_or_def truthy_num_def Let_def)
  have fe: "forEach_place s2n ks [Some place_a, None] 0 acc = Inl (Some NULL_PLACE_MESSAGE)" for ks acc
    using st [of ks acc] by auto
  show ?thesis
    by (simp add: load_fails_def loadDataset_def loadDataset_try_def payload_array_def Let_def fe
          del: forEach_place.simps)
qed

text \<open>
  From the arrival of the response on, the loader restores what it reads: the
  visited set becomes the stored keys of the dataset identifier that are keys of
  loaded records, an entry that is absent, does not parse or is not an array counts as
  empty, and the loader writes nothing to the store.
\<close>

lemma loader_visited_intersection:
  assumes "\<not> load_fails pf False res s"
  shows "set (visited (loadDataset pf False res s))
       = set (read_stored_keys (localStorage s (storageKey (datasetId s))))
         \<inter> {k. \<exists>i<length (data (loadDataset pf False res s)).
                  k = placeKey (data (loadDataset pf False res s) ! i) i}
   \<and> ((\<forall>vs. localStorage s (storageKey (datasetId s)) \<noteq> Some (Parsed (JArr vs))) \<longrightarrow>
        visited (loadDataset pf False res s) = [])
   \<and> localStorage (loadDataset pf False res s) = localStorage s"
proof -
  let ?ks = "read_stored_keys (localStorage s (storageKey (datasetId s)))"
  let ?s' = "loadDataset pf False res s"
  obtain st raw ps acc where ok: "list_all (\<lambda>p. \<not> step_throws pf p) ps" and
    fe: "forEach_place pf ?ks (map Some ps) 0
           \<lparr>nextVisited = [], nextCoords = empty_object, freshest = None\<rparr> = Inr acc"
    and s': "?s' = s\<lparr>loading := False, data := ps, visited := nextVisited acc, geoCache := nextCoords acc,
              datasetInfo := Some \<lparr>total = length ps, lastUpdated = freshest acc\<rparr>,
              seen := [], currentIdx := None, selectionSource := None, statusMessage := None,
              loadError := None\<rparr>"
    using loadDataset_success [OF assms] by blast
  have d: "data ?s' = ps" and v: "visited ?s' = nextVisited acc"
    and ls: "localStorage ?s' = localStorage s"
    by (simp_all add: s')
  have "set (nextVisited acc) = {k \<in> set ?ks. \<exists>j<length ps. k = placeKey (ps ! j) (0 + j)}"
    using forEach_records [OF ok, of ?ks 0 "\<lparr>nextVisited = [], nextCoords = empty_object, freshest = None\<rparr>"]
      fe by auto
  then have g1: "set (visited ?s') = set ?ks \<inter> {k. \<exists>i<length (data ?s'). k = placeKey (data ?s' ! i) i}"
    unfolding d v by auto
  have g2: "(\<forall>vs. localStorage s (storageKey (datasetId s)) \<noteq> Some (Parsed (JArr vs))) \<longrightarrow>
        visited ?s' = []"
  proof
    assume "\<forall>vs. localStorage s (storageKey (datasetId s)) \<noteq> Some (Parsed (JArr vs))"
    then have "?ks = []" by (rule read_stored_keys_not_array)
    then have "set (visited ?s') = {}" using g1 by simp
    then show "visited ?s' = []" by simp
  qed
  show ?thesis using g1 g2 ls by blast
qed

lemma persistVisited_entry:
  "localStorage (persistVisited s) (storageKey (datasetId s)) = Some (Parsed (JArr (map JStr (visited s))))"
  by (simp add: persistVisited_def)

lemma keys_examples:
  "placeKey place_inf i = ''https://maps/far''" "placeKey place_ctor i = ''constructor''"
  "placeKey place_obj i = ''https://maps/odd''" "placeKey place_d i = ''Dee::9 Far Rd''"
  by (simp_all add: placeKey_def place_inf_def place_ctor_def place_obj_def place_d_def)

lemma coords_examples:
  "place_coords pf place_a = Inr (Some here)" "place_coords pf place_a2 = Inr None"
  "place_coords pf place_b = Inr None" "place_coords pf place_c = Inr (Some north)"
  "place_coords pf place_inf = Inr (Some \<lparr>lat = PInf, lng = Fnum 103\<rparr>)"
  "place_coords pf place_ctor = Inr None"
  "place_coords pf place_obj = Inl (Some NO_PRIMITIVE_MESSAGE)"
  by (simp_all add: place_coords_def place_a_def place_a2_def place_b_def place_c_def
        place_inf_def place_ctor_def place_obj_def nullish_or_def here_def north_def)

lemma coords_d: "place_coords no_numeric_strings place_d = Inr None"
  by (simp add: place_coords_def place_d_def nullish_or_def no_numeric_strings_def)

lemma load_step_examples:
  "load_step pf ks place_a i acc
     = Inr \<lparr>nextVisited = (if ''https://maps/a'' \<in> set ks then set_add ''https://maps/a'' (nextVisited acc)
                           else nextVisited acc),
            nextCoords = object_put ''https://maps/a'' here (nextCoords acc),
            freshest = (case freshest acc of None \<Rightarrow> Some 1000
                        | Some f \<Rightarrow> if f < 1000 then Some 1000 else Some f)\<rparr>"
  "load_step pf ks place_b i acc
     = Inr \<lparr>nextVisited = (if ''Bee::'' \<in> set ks then set_add ''Bee::'' (nextVisited acc)
                           else nextVisited acc),
            nextCoords = nextCoords acc, freshest = freshest acc\<rparr>"
  "load_step pf ks place_a2 i acc
     = Inr \<lparr>nextVisited = (if ''https://maps/a'' \<in> set ks then set_add ''https://maps/a'' (nextVisited acc)
                           else nextVisited acc),
            nextCoords = nextCoords acc, freshest = freshest acc\<rparr>"
  by (simp_all add: load_step_def keys_loaded coords_examples Let_def)
     (simp_all add: place_a_def place_b_def place_a2_def truthy_num_def)

text \<open>
  Claim C5, from a page load. An earlier session left the visited keys of a record of
  the dataset and of no record in the store. The persistence effect of the first
  render writes the empty visited set over the entry before the response arrives, so
  the loader reads an empty array: the visited set after the load is empty, not the
  key of the record, and the store entry is empty too. On a change of the dataset the
  same effect writes the visited keys of the dataset left under the identifier of the
  dataset chosen.
\<close>

theorem page_load_forgets_persisted_visited:
  "read_stored_keys (earlier_store (storageKey Singapore)) = [''https://maps/a'', ''gone'']
   \<and> placeKey place_a 0 = ''https://maps/a''
   \<and> localStorage (dataset_effects (first_render Singapore earlier_store)) (storageKey Singapore)
       = Some (Parsed (JArr []))
   \<and> data (page_load pf Singapore earlier_store
             (Response True 200 (Json_body (Top_array [Some place_a, Some place_b]))))
       = [place_a, place_b]
   \<and> visited (page_load pf Singapore earlier_store
             (Response True 200 (Json_body (Top_array [Some place_a, Some place_b]))))
       = []
   \<and> localStorage (page_load pf Singapore earlier_store
             (Response True 200 (Json_body (Top_array [Some place_a, Some place_b]))))
         (storageKey Singapore)
       = Some (Parsed (JArr []))
   \<and> localStorage (dataset_effects (handleDatasetChange HongKong
             (loaded_state\<lparr>visited := [''https://maps/a'']\<rparr>))) (storageKey HongKong)
       = Some (Parsed (JArr [JStr ''https://maps/a'']))"
  by (simp add: page_load_def dataset_effects_def first_render_def persistVisited_def
        handleDatasetChange_def loaded_state_def earlier_store_def
        loadDataset_def loadDataset_try_def payload_array_def Let_def
        load_step_examples read_stored_keys_def keys_loaded storageKey_def)

section \<open>The geo cache after a load\<close>

lemma place_coords_iff:
  "place_coords pf p = Inr (Some \<lparr>lat = a, lng = b\<rparr>) \<longleftrightarrow>
     (\<exists>kvs. location p = Some (JObj kvs)
        \<and> Number_js pf (nullish_or (map_of kvs ''lat'') (map_of kvs ''latitude'')) = Inr a
        \<and> Number_js pf (nullish_or (nullish_or (map_of kvs ''lng'') (map_of kvs ''lon''))
                                  (map_of kvs ''longitude'')) = Inr b
        \<and> a \<noteq> NaN \<and> b \<noteq> NaN)"
  by (auto simp: place_coords_def split: option.splits json.splits sum.splits if_splits)

lemma Number_js_primitive:
  "(\<forall>vs. v \<noteq> Some (JArr vs)) \<Longrightarrow> (\<forall>kvs. v \<noteq> Some (JObj kvs)) \<Longrightarrow> \<not> isl (Number_js pf v)"
proof (cases v)
  case None
  then show ?thesis by simp
next
  case (Some w)
  assume "\<forall>vs. v \<noteq> Some (JArr vs)" "\<forall>kvs. v \<noteq> Some (JObj kvs)"
  then show ?thesis using Some by (cases w) auto
qed

lemma object_get_plain:
  "\<not> List.member OBJECT_PROTOTYPE_NAMES k \<Longrightarrow> k \<noteq> ''lat'' \<Longrightarrow> k \<noteq> ''lng'' \<Longrightarrow>
     object_get g k = map_option Coords (own_props g k)"
  by (auto simp: object_get_def OBJECT_PROTOTYPE_NAMES_def split: option.splits)

text \<open>
  Claim C9, as amended. After a load that succeeds, for a loaded record whose key is
  not the name of a member that a plain object inherits (nor \<open>lat\<close> or \<open>lng\<close>), the geo
  cache reads a coordinate under the key if and only if some loaded record with that
  key has a location object whose latitude (\<open>lat\<close>, else \<open>latitude\<close>) and longitude
  (\<open>lng\<close>, else \<open>lon\<close>, else \<open>longitude\<close>) both coerce to a number that is not NaN, and
  reads nothing otherwise; for a record whose key no other record shares, that record
  is the record itself. Coordinate data that is missing or is no array and no object
  never makes the coercion throw, and a load of records fails only when a conversion
  throws.
\<close>

theorem geoCache_after_load:
  "(\<not> load_fails pf False res s \<longrightarrow>
      (\<forall>i<length (data (loadDataset pf False res s)).
         \<not> List.member OBJECT_PROTOTYPE_NAMES (placeKey (data (loadDataset pf False res s) ! i) i)
         \<and> placeKey (data (loadDataset pf False res s) ! i) i \<noteq> ''lat''
         \<and> placeKey (data (loadDataset pf False res s) ! i) i \<noteq> ''lng'' \<longrightarrow>
         ((\<exists>c. object_get (geoCache (loadDataset pf False res s))
                  (placeKey (data (loadDataset pf False res s) ! i) i) = Some (Coords c))
            \<longleftrightarrow> (\<exists>j<length (data (loadDataset pf False res s)).
                   placeKey (data (loadDataset pf False res s) ! j) j
                     = placeKey (data (loadDataset pf False res s) ! i) i
                   \<and> (\<exists>c. place_coords pf (data (loadDataset pf False res s) ! j) = Inr (Some c))))
         \<and> ((\<nexists>c. object_get (geoCache (loadDataset pf False res s))
                  (placeKey (data (loadDataset pf False res s) ! i) i) = Some (Coords c)) \<longrightarrow>
              object_get (geoCache (loadDataset pf False res s))
                  (placeKey (data (loadDataset pf False res s) ! i) i) = None)
         \<and> ((\<forall>j<length (data (loadDataset pf False res s)).
                placeKey (data (loadDataset pf False res s) ! j) j
                  = placeKey (data (loadDataset pf False res s) ! i) i \<longrightarrow> j = i) \<longrightarrow>
              ((\<exists>c. object_get (geoCache (loadDataset pf False res s))
                       (placeKey (data (loadDataset pf False res s) ! i) i) = Some (Coords c))
               \<longleftrightarrow> (\<exists>c. place_coords pf (data (loadDataset pf False res s) ! i) = Inr (Some c))))))
   \<and> (place_coords pf p = Inr (Some \<lparr>lat = a, lng = b\<rparr>) \<longleftrightarrow>
        (\<exists>kvs. location p = Some (JObj kvs)
           \<and> Number_js pf (nullish_or (map_of kvs ''lat'') (map_of kvs ''latitude'')) = Inr a
           \<and> Number_js pf (nullish_or (nullish_or (map_of kvs ''lng'') (map_of kvs ''lon''))
                                     (map_of kvs ''longitude'')) = Inr b
           \<and> a \<noteq> NaN \<and> b \<noteq> NaN))
   \<and> ((\<forall>vs. v \<noteq> Some (JArr vs)) \<and> (\<forall>kvs. v \<noteq> Some (JObj kvs)) \<longrightarrow> \<not> isl (Number_js pf v))
   \<and> (payload_array raw = map Some ps \<and> ps \<noteq> [] \<and> list_all (\<lambda>p. \<not> step_throws pf p) ps \<longrightarrow>
        \<not> load_fails pf False (Response True st (Json_body raw)) s)"
proof -
  let ?s' = "loadDataset pf False res s"
  have a: "\<not> load_fails pf False res s \<Longrightarrow> i < length (data ?s') \<Longrightarrow>
      \<not> List.member OBJECT_PROTOTYPE_NAMES (placeKey (data ?s' ! i) i) \<Longrightarrow>
      placeKey (data ?s' ! i) i \<noteq> ''lat'' \<Longrightarrow> placeKey (data ?s' ! i) i \<noteq> ''lng'' \<Longrightarrow>
      ((\<exists>c. object_get (geoCache ?s') (placeKey (data ?s' ! i) i) = Some (Coords c))
         \<longleftrightarrow> (\<exists>j<length (data ?s'). placeKey (data ?s' ! j) j = placeKey (data ?s' ! i) i
                \<and> (\<exists>c. place_coords pf (data ?s' ! j) = Inr (Some c))))
      \<and> ((\<nexists>c. object_get (geoCache ?s') (placeKey (data ?s' ! i) i) = Some (Coords c)) \<longrightarrow>
           object_get (geoCache ?s') (placeKey (data ?s' ! i) i) = None)" for i
  proof -
    assume ok: "\<not> load_fails pf False res s" and i: "i < length (data ?s')"
      and n1: "\<not> List.member OBJECT_PROTOTYPE_NAMES (placeKey (data ?s' ! i) i)"
      and n2: "placeKey (data ?s' ! i) i \<noteq> ''lat''" and n3: "placeKey (data ?s' ! i) i \<noteq> ''lng''"
    let ?ks = "read_stored_keys (localStorage s (storageKey (datasetId s)))"
    obtain st raw ps acc where nt: "list_all (\<lambda>p. \<not> step_throws pf p) ps" and
      fe: "forEach_place pf ?ks (map Some ps) 0
             \<lparr>nextVisited = [], nextCoords = empty_object, freshest = None\<rparr> = Inr acc"
      and s': "?s' = s\<lparr>loading := False, data := ps, visited := nextVisited acc, geoCache := nextCoords acc,
                datasetInfo := Some \<lparr>total = length ps, lastUpdated = freshest acc\<rparr>,
                seen := [], currentIdx := None, selectionSource := None, statusMessage := None,
                loadError := None\<rparr>"
      using loadDataset_success [OF ok] by blast
    have d: "data ?s' = ps" and g: "geoCache ?s' = nextCoords acc" by (simp_all add: s')
    have c1: "\<forall>k c. own_props (nextCoords acc) k = Some c \<longrightarrow>
             (\<exists>j<length ps. placeKey (ps ! j) j = k \<and> place_coords pf (ps ! j) = Inr (Some c))"
      and c3: "\<forall>j<length ps. placeKey (ps ! j) j \<noteq> ''__proto__''
             \<and> (\<exists>c. place_coords pf (ps ! j) = Inr (Some c)) \<longrightarrow>
             own_props (nextCoords acc) (placeKey (ps ! j) j) \<noteq> None"
      using forEach_records [OF nt, of ?ks 0 "\<lparr>nextVisited = [], nextCoords = empty_object, freshest = None\<rparr>"]
        fe by (auto simp: empty_object_def)
    let ?k = "placeKey (ps ! i) i"
    have np: "?k \<noteq> ''__proto__''"
      using n1 unfolding d by (auto simp: OBJECT_PROTOTYPE_NAMES_def)
    have og: "object_get (nextCoords acc) ?k = map_option Coords (own_props (nextCoords acc) ?k)"
      using n1 n2 n3 unfolding d by (rule object_get_plain)
    have l: "(\<exists>c. object_get (nextCoords acc) ?k = Some (Coords c))
         \<longleftrightarrow> (\<exists>j<length ps. placeKey (ps ! j) j = ?k \<and> (\<exists>c. place_coords pf (ps ! j) = Inr (Some c)))"
    proof
      assume "\<exists>c. object_get (nextCoords acc) ?k = Some (Coords c)"
      then obtain c where "own_props (nextCoords acc) ?k = Some c" unfolding og by auto
      then show "\<exists>j<length ps. placeKey (ps ! j) j = ?k \<and> (\<exists>c. place_coords pf (ps ! j) = Inr (Some c))"
        using c1 by blast
    next
      assume "\<exists>j<length ps. placeKey (ps ! j) j = ?k \<and> (\<exists>c. place_coords pf (ps ! j) = Inr (Some c))"
      then obtain j where j: "j < length ps" "placeKey (ps ! j) j = ?k"
        "\<exists>c. place_coords pf (ps ! j) = Inr (Some c)" by blast
      then have "own_props (nextCoords acc) (placeKey (ps ! j) j) \<noteq> None"
        using c3 np by metis
      then show "\<exists>c. object_get (nextCoords acc) ?k = Some (Coords c)"
        unfolding og using j(2) by auto
    qed
    have r: "(\<nexists>c. object_get (nextCoords acc) ?k = Some (Coords c)) \<longrightarrow>
           object_get (nextCoords acc) ?k = None"
      unfolding og by (cases "own_props (nextCoords acc) ?k") auto
    show ?thesis unfolding d g using l r by blast
  qed
  have c: "payload_array raw = map Some ps \<and> ps \<noteq> [] \<and> list_all (\<lambda>p. \<not> step_throws pf p) ps \<longrightarrow>
        \<not> load_fails pf False (Response True st (Json_body raw)) s"
    by (auto simp: load_fails_iff list_all_iff)
  have n: "(\<forall>vs. v \<noteq> Some (JArr vs)) \<and> (\<forall>kvs. v \<noteq> Some (JObj kvs)) \<longrightarrow> \<not> isl (Number_js pf v)"
    using Number_js_primitive [of v pf] by blast
  show ?thesis
    using a c n place_coords_iff [of pf p a b] by blast
qed

lemma no_throw_examples:
  "\<not> step_throws pf place_a" "\<not> step_throws pf place_b" "\<not> step_throws pf place_c"
  "\<not> step_throws pf place_a2" "\<not> step_throws pf place_inf" "\<not> step_throws pf place_ctor"
  "\<not> step_throws no_numeric_strings place_d" "step_throws pf place_obj"
  by (simp_all add: step_throws_iff coords_examples coords_d)
     (simp_all add: place_a_def place_b_def place_c_def place_a2_def place_inf_def place_ctor_def
        place_d_def)

lemma load_step_more:
  "load_step pf ks place_c i acc
     = Inr \<lparr>nextVisited = (if placeKey place_c i \<in> set ks then set_add (placeKey place_c i) (nextVisited acc)
                           else nextVisited acc),
            nextCoords = object_put (placeKey place_c i) north (nextCoords acc),
            freshest = (case freshest acc of None \<Rightarrow> Some 2000
                        | Some f \<Rightarrow> if f < 2000 then Some 2000 else Some f)\<rparr>"
  "load_step no_numeric_strings ks place_d i acc
     = Inr \<lparr>nextVisited = (if ''Dee::9 Far Rd'' \<in> set ks then set_add ''Dee::9 Far Rd'' (nextVisited acc)
                           else nextVisited acc),
            nextCoords = nextCoords acc, freshest = freshest acc\<rparr>"
  "load_step pf ks place_inf i acc
     = Inr \<lparr>nextVisited = (if ''https://maps/far'' \<in> set ks then set_add ''https://maps/far'' (nextVisited acc)
                           else nextVisited acc),
            nextCoords = object_put ''https://maps/far'' \<lparr>lat = PInf, lng = Fnum 103\<rparr> (nextCoords acc),
            freshest = freshest acc\<rparr>"
  "load_step pf ks place_ctor i acc
     = Inr \<lparr>nextVisited = (if ''constructor'' \<in> set ks then set_add ''constructor'' (nextVisited acc)
                           else nextVisited acc),
            nextCoords = nextCoords acc, freshest = freshest acc\<rparr>"
  by (simp_all add: load_step_def keys_examples coords_examples coords_d Let_def)
     (simp_all add: place_c_def place_d_def place_inf_def place_ctor_def truthy_num_def)

lemma load_four_ok:
  "\<not> load_fails no_numeric_strings False
       (Response True 200 (Json_body (Top_array [Some place_a, Some place_b, Some place_c, Some place_d])))
       initial_state"
  by (auto simp: load_fails_iff payload_array_def no_throw_examples)

lemma load_four_cache:
  "geoCache (loadDataset no_numeric_strings False
       (Response True 200 (Json_body (Top_array [Some place_a, Some place_b, Some place_c, Some place_d])))
       initial_state)
     = \<lparr>own_props = [''https://maps/a'' \<mapsto> here, ''index-2'' \<mapsto> north], proto_coords = None\<rparr>"
  by (simp add: loadDataset_def loadDataset_try_def payload_array_def Let_def initial_state_def
        load_step_examples load_step_more keys_loaded object_put_def empty_object_def)

lemma load_four_data:
  "data (loadDataset no_numeric_strings False
       (Response True 200 (Json_body (Top_array [Some place_a, Some place_b, Some place_c, Some place_d])))
       initial_state)
     = [place_a, place_b, place_c, place_d]"
  by (simp add: loadDataset_def loadDataset_try_def payload_array_def Let_def initial_state_def
        load_step_examples load_step_more)

lemma load_four_reads:
  "object_get (geoCache (loadDataset no_numeric_strings False
       (Response True 200 (Json_body (Top_array [Some place_a, Some place_b, Some place_c, Some place_d])))
       initial_state)) ''https://maps/a'' = Some (Coords here)"
  "object_get (geoCache (loadDataset no_numeric_strings False
       (Response True 200 (Json_body (Top_array [Some place_a, Some place_b, Some place_c, Some place_d])))
       initial_state)) ''Bee::'' = None"
  "object_get (geoCache (loadDataset no_numeric_strings False
       (Response True 200 (Json_body (Top_array [Some place_a, Some place_b, Some place_c, Some place_d])))
       initial_state)) ''Dee::9 Far Rd'' = None"
  unfolding load_four_cache by (simp_all add: object_get_def OBJECT_PROTOTYPE_NAMES_def)

lemma word_is_no_number: "Number_js no_numeric_strings (Some (JStr ''north'')) = Inr NaN"
  by (simp add: no_numeric_strings_def)

theorem geoCache_after_load_witness:
  "\<not> load_fails no_numeric_strings False
       (Response True 200 (Json_body (Top_array [Some place_a, Some place_b, Some place_c, Some place_d])))
       initial_state
   \<and> object_get (geoCache (loadDataset no_numeric_strings False
       (Response True 200 (Json_body (Top_array [Some place_a, Some place_b, Some place_c, Some place_d])))
       initial_state)) (placeKey place_a 0) = Some (Coords here)
   \<and> object_get (geoCache (loadDataset no_numeric_strings False
       (Response True 200 (Json_body (Top_array [Some place_a, Some place_b, Some place_c, Some place_d])))
       initial_state)) (placeKey place_b 1) = None
   \<and> object_get (geoCache (loadDataset no_numeric_strings False
       (Response True 200 (Json_body (Top_array [Some place_a, Some place_b, Some place_c, Some place_d])))
       initial_state)) (placeKey place_d 3) = None
   \<and> place_coords no_numeric_strings place_a = Inr (Some here)
   \<and> place_coords no_numeric_strings place_d = Inr None
   \<and> Number_js no_numeric_strings (Some (JStr ''north'')) = Inr NaN"
  using geoCache_after_load
          [where pf = no_numeric_strings
             and res = "Response True 200 (Json_body (Top_array [Some place_a, Some place_b, Some place_c, Some place_d]))"
             and s = initial_state and p = place_a and a = "Fnum 1" and b = "Fnum 103"
             and v = "Some (JStr ''north'')"
             and raw = "Top_array [Some place_a, Some place_b, Some place_c, Some place_d]"
             and ps = "[place_a, place_b, place_c, place_d]" and st = 200]
    load_four_ok load_four_reads word_is_no_number
  by (simp add: keys_loaded keys_examples coords_examples coords_d)

text \<open>
  Claim C9 as stated fails for records that share a key: the second record has no
  location, and the cache has an entry for its key, read from the first.
\<close>

theorem duplicate_key_shares_coordinate_counterexample:
  "location place_a2 = None
   \<and> place_coords no_numeric_strings place_a2 = Inr None
   \<and> data (loadDataset no_numeric_strings False
             (Response True 200 (Json_body (Top_array [Some place_a, Some place_a2]))) initial_state) ! 1
       = place_a2
   \<and> object_get (geoCache (loadDataset no_numeric_strings False
             (Response True 200 (Json_body (Top_array [Some place_a, Some place_a2]))) initial_state))
         (placeKey place_a2 1)
       = Some (Coords here)"
  by (simp add: loadDataset_def loadDataset_try_def payload_array_def Let_def initial_state_def
        load_step_examples keys_loaded coords_examples object_put_def empty_object_def object_get_def)
     (simp add: place_a2_def)

section \<open>Nearby ranking: regular and irregular entries\<close>

lemma zip_index: "zip xs [0..<length xs] = map (\<lambda>i. (xs ! i, i)) [0..<length xs]"
proof -
  have "zip xs [0..<length xs] = zip (map (nth xs) [0..<length xs]) [0..<length xs]"
    by (simp add: map_nth)
  also have "\<dots> = map (\<lambda>i. (xs ! i, i)) [0..<length xs]"
    by (simp add: zip_map1 zip_same_conv_map)
  finally show ?thesis .
qed

lemma nearby_candidate_Some:
  "nearby_candidate s u (p, i) = Some e \<longleftrightarrow>
     truthy_value (object_get (geoCache s) (placeKey p i))
     \<and> \<not> js_gt (haversineDistance u (as_coordinates (the (object_get (geoCache s) (placeKey p i)))))
               (Fnum 2)
     \<and> e = \<lparr>place = p, idx = i,
             distanceKm = haversineDistance u (as_coordinates (the (object_get (geoCache s) (placeKey p i)))),
             key = placeKey p i, isVisited = (placeKey p i \<in> set (visited s)),
             coords = the (object_get (geoCache s) (placeKey p i))\<rparr>"
  by (auto simp: nearby_candidate_def Let_def)

lemma nearby_entries_eq:
  "nearby_entries s u
     = List.map_filter (\<lambda>i. nearby_candidate s u (data s ! i, i)) [0..<length (data s)]"
  by (simp add: nearby_entries_def zip_index List.map_filter_def filter_map comp_def)

lemma set_map_filter_Some:
  "set (List.map_filter g xs) = {y. \<exists>x \<in> set xs. g x = Some y}"
  by (induction xs) (auto split: option.splits)

lemma set_nearby_entries:
  "set (nearby_entries s u)
     = {e. \<exists>i<length (data s). nearby_candidate s u (data s ! i, i) = Some e}"
  by (auto simp: nearby_entries_eq set_map_filter_Some)

lemma idx_map_filter:
  assumes "\<And>i e. g i = Some e \<Longrightarrow> idx e = i"
  shows "map idx (List.map_filter g is) = filter (\<lambda>i. g i \<noteq> None) is"
  using assms by (induction "is") (auto split: option.splits)

lemma distinct_idx_entries: "distinct (map idx (nearby_entries s u))"
proof -
  have "map idx (nearby_entries s u)
          = filter (\<lambda>i. nearby_candidate s u (data s ! i, i) \<noteq> None) [0..<length (data s)]"
    unfolding nearby_entries_eq
    by (rule idx_map_filter) (auto simp: nearby_candidate_Some)
  then show ?thesis by simp
qed

lemma take_sorted_bound:
  assumes "sorted (map f xs)" and "e \<in> set xs" and "e \<notin> set (take n xs)"
  shows "length (take n xs) = n \<and> (\<forall>d \<in> set (take n xs). f d \<le> f e)"
proof -
  have split: "xs = take n xs @ drop n xs" by simp
  have e: "e \<in> set (drop n xs)"
    using assms(2,3) split by (metis Un_iff set_append)
  then have "drop n xs \<noteq> []" by auto
  then have len: "length (take n xs) = n" by simp
  have "sorted (map f (take n xs) @ map f (drop n xs))"
    using assms(1) by (metis split map_append)
  then have "\<forall>a \<in> set (map f (take n xs)). \<forall>b \<in> set (map f (drop n xs)). a \<le> b"
    by (simp add: sorted_append)
  then have "\<forall>d \<in> set (take n xs). f d \<le> f e"
    using e by auto
  then show ?thesis using len by simp
qed

lemma js_gt_fnum: "is_fnum d \<Longrightarrow> \<not> js_gt d (Fnum 2) \<longleftrightarrow> fnum_value d \<le> 2"
  by (cases d) auto

lemma js_atan2_finite_or_nan: "js_atan2 y x = NaN \<or> is_fnum (js_atan2 y x)"
  by (cases y; cases x) simp_all

lemma haversine_finite_or_nan: "haversineDistance a b = NaN \<or> is_fnum (haversineDistance a b)"
proof -
  have m: "js_mul (Fnum r) z = NaN \<or> is_fnum (js_mul (Fnum r) z)" if "z = NaN \<or> is_fnum z" for r z
    using that by (cases z) auto
  show ?thesis
    unfolding haversineDistance_def Let_def
    by (intro m js_atan2_finite_or_nan)
qed

text \<open>
  Where the ranking is regular, it filters, sorts and truncates: when no key of a record
  names a member that a plain object inherits (nor \<open>lat\<close> or \<open>lng\<close>) and every distance
  computed is finite, the list is sorted ascending by distance, has at most 30 entries,
  one per record at most; every entry is a loaded record with an own coordinate in the
  geo cache at a distance of at most 2 km; every such record is in the list unless 30
  entries no farther away fill it; a record without an own coordinate never appears.
\<close>

lemma nearbyPlaces_regular:
  assumes u: "userLocation s = Some u"
    and fin: "list_all (\<lambda>e. is_fnum (distanceKm e)) (nearby_entries s u)"
    and plain: "\<forall>i<length (data s).
                  \<not> List.member OBJECT_PROTOTYPE_NAMES (placeKey (data s ! i) i)
                  \<and> placeKey (data s ! i) i \<noteq> ''lat'' \<and> placeKey (data s ! i) i \<noteq> ''lng''"
  shows "sorted (map (\<lambda>e. fnum_value (distanceKm e)) (nearbyPlaces impl s))
   \<and> length (nearbyPlaces impl s) \<le> 30
   \<and> distinct (map idx (nearbyPlaces impl s))
   \<and> (\<forall>e \<in> set (nearbyPlaces impl s).
         idx e < length (data s) \<and> place e = data s ! idx e
         \<and> key e = placeKey (place e) (idx e)
         \<and> (\<exists>c. own_props (geoCache s) (key e) = Some c \<and> coords e = Coords c
                \<and> distanceKm e = haversineDistance u c)
         \<and> is_fnum (distanceKm e) \<and> fnum_value (distanceKm e) \<le> 2
         \<and> isVisited e = (key e \<in> set (visited s)))
   \<and> (\<forall>i c d. i < length (data s) \<and> own_props (geoCache s) (placeKey (data s ! i) i) = Some c
              \<and> haversineDistance u c = Fnum d \<and> d \<le> 2 \<longrightarrow>
         (\<exists>e \<in> set (nearbyPlaces impl s). idx e = i)
         \<or> (length (nearbyPlaces impl s) = 30
             \<and> (\<forall>e \<in> set (nearbyPlaces impl s). fnum_value (distanceKm e) \<le> d)))
   \<and> (\<forall>i. i < length (data s) \<and> own_props (geoCache s) (placeKey (data s ! i) i) = None \<longrightarrow>
         (\<forall>e \<in> set (nearbyPlaces impl s). idx e \<noteq> i))"
proof -
  let ?f = "\<lambda>e. fnum_value (distanceKm e)"
  let ?L = "sort_key ?f (nearby_entries s u)"
  have np: "nearbyPlaces impl s = take 30 ?L"
    using fin by (simp add: nearbyPlaces_def u sort_by_distance_def)
  have sortedL: "sorted (map ?f ?L)" by (rule sorted_sort_key)
  have s1: "sorted (map ?f (nearbyPlaces impl s))"
    unfolding np take_map [symmetric] using sortedL by (simp add: sorted_wrt_take)
  have s2: "length (nearbyPlaces impl s) \<le> 30" by (simp add: np)
  have sub: "set (nearbyPlaces impl s) \<subseteq> set (nearby_entries s u)"
    unfolding np using set_take_subset [of 30 ?L] by simp
  have og: "\<And>i. i < length (data s) \<Longrightarrow>
      object_get (geoCache s) (placeKey (data s ! i) i)
        = map_option Coords (own_props (geoCache s) (placeKey (data s ! i) i))"
    using plain by (simp add: object_get_plain)
  have mem: "\<And>e. e \<in> set (nearby_entries s u) \<Longrightarrow>
         idx e < length (data s) \<and> place e = data s ! idx e
         \<and> key e = placeKey (place e) (idx e)
         \<and> (\<exists>c. own_props (geoCache s) (key e) = Some c \<and> coords e = Coords c
                \<and> distanceKm e = haversineDistance u c)
         \<and> is_fnum (distanceKm e) \<and> fnum_value (distanceKm e) \<le> 2
         \<and> isVisited e = (key e \<in> set (visited s))"
  proof -
    fix e assume e: "e \<in> set (nearby_entries s u)"
    then obtain i where i: "i < length (data s)"
      and c: "nearby_candidate s u (data s ! i, i) = Some e"
      by (auto simp: set_nearby_entries)
    have fe: "is_fnum (distanceKm e)" using fin e by (simp add: list_all_iff)
    let ?k = "placeKey (data s ! i) i"
    have tv: "truthy_value (map_option Coords (own_props (geoCache s) ?k))"
      using c og [OF i] by (simp add: nearby_candidate_Some)
    then obtain co where co: "own_props (geoCache s) ?k = Some co"
      by (cases "own_props (geoCache s) ?k") auto
    have parts: "idx e = i" "place e = data s ! i" "key e = ?k"
      "coords e = Coords co" "distanceKm e = haversineDistance u co"
      "isVisited e = (?k \<in> set (visited s))"
      "\<not> js_gt (distanceKm e) (Fnum 2)"
      using c og [OF i] co by (auto simp: nearby_candidate_Some)
    have "fnum_value (distanceKm e) \<le> 2" using parts(7) fe by (simp add: js_gt_fnum)
    then show "idx e < length (data s) \<and> place e = data s ! idx e
         \<and> key e = placeKey (place e) (idx e)
         \<and> (\<exists>c. own_props (geoCache s) (key e) = Some c \<and> coords e = Coords c
                \<and> distanceKm e = haversineDistance u c)
         \<and> is_fnum (distanceKm e) \<and> fnum_value (distanceKm e) \<le> 2
         \<and> isVisited e = (key e \<in> set (visited s))"
      using i co parts fe by simp
  qed
  have s4: "\<forall>e \<in> set (nearbyPlaces impl s).
         idx e < length (data s) \<and> place e = data s ! idx e
         \<and> key e = placeKey (place e) (idx e)
         \<and> (\<exists>c. own_props (geoCache s) (key e) = Some c \<and> coords e = Coords c
                \<and> distanceKm e = haversineDistance u c)
         \<and> is_fnum (distanceKm e) \<and> fnum_value (distanceKm e) \<le> 2
         \<and> isVisited e = (key e \<in> set (visited s))"
    using sub mem by blast
  have dL: "distinct (map idx ?L)"
  proof -
    have "distinct (nearby_entries s u) \<and> inj_on idx (set (nearby_entries s u))"
      using distinct_idx_entries [of s u] by (simp add: distinct_map)
    then show ?thesis by (simp add: distinct_map)
  qed
  have s3: "distinct (map idx (nearbyPlaces impl s))"
    unfolding np take_map [symmetric] using dL by (rule distinct_take)
  have s5: "\<forall>i c d. i < length (data s) \<and> own_props (geoCache s) (placeKey (data s ! i) i) = Some c
              \<and> haversineDistance u c = Fnum d \<and> d \<le> 2 \<longrightarrow>
         (\<exists>e \<in> set (nearbyPlaces impl s). idx e = i)
         \<or> (length (nearbyPlaces impl s) = 30
             \<and> (\<forall>e \<in> set (nearbyPlaces impl s). fnum_value (distanceKm e) \<le> d))"
  proof (intro allI impI)
    fix i c d
    assume h: "i < length (data s) \<and> own_props (geoCache s) (placeKey (data s ! i) i) = Some c
              \<and> haversineDistance u c = Fnum d \<and> d \<le> 2"
    define e where "e = \<lparr>place = data s ! i, idx = i, distanceKm = Fnum d,
                          key = placeKey (data s ! i) i,
                          isVisited = (placeKey (data s ! i) i \<in> set (visited s)),
                          coords = Coords c\<rparr>"
    have "nearby_candidate s u (data s ! i, i) = Some e"
      using h og [of i] by (simp add: nearby_candidate_Some e_def)
    then have eL: "e \<in> set ?L" using h by (auto simp: set_nearby_entries)
    have ei: "idx e = i" and ed: "fnum_value (distanceKm e) = d" by (simp_all add: e_def)
    show "(\<exists>e \<in> set (nearbyPlaces impl s). idx e = i)
         \<or> (length (nearbyPlaces impl s) = 30
             \<and> (\<forall>e \<in> set (nearbyPlaces impl s). fnum_value (distanceKm e) \<le> d))"
    proof (cases "e \<in> set (take 30 ?L)")
      case True
      then show ?thesis using ei np by auto
    next
      case False
      have "length (take 30 ?L) = 30 \<and> (\<forall>x \<in> set (take 30 ?L). ?f x \<le> ?f e)"
        using take_sorted_bound [OF sortedL eL False] .
      then show ?thesis using ed np by simp
    qed
  qed
  have s6: "\<forall>i. i < length (data s) \<and> own_props (geoCache s) (placeKey (data s ! i) i) = None \<longrightarrow>
         (\<forall>e \<in> set (nearbyPlaces impl s). idx e \<noteq> i)"
    using s4 by auto
  show ?thesis
    using s1 s2 s3 s4 s5 s6 by blast
qed

lemma haversine_infinite_latitude: "haversineDistance here \<lparr>lat = PInf, lng = Fnum 103\<rparr> = NaN"
  by (simp add: haversineDistance_def toRad_def here_def js_sub_def signed_inf_def Let_def)

lemma haversine_no_coordinates: "haversineDistance u \<lparr>lat = NaN, lng = NaN\<rparr> = NaN"
  by (simp add: haversineDistance_def toRad_def js_sub_def Let_def)

lemma load_one_far:
  "loadDataset pf False (Response True 200 (Json_body (Top_array [Some place_inf]))) initial_state
     = initial_state\<lparr>loading := False, data := [place_inf],
         geoCache := \<lparr>own_props = [''https://maps/far'' \<mapsto> \<lparr>lat = PInf, lng = Fnum 103\<rparr>],
                       proto_coords = None\<rparr>,
         datasetInfo := Some \<lparr>total = 1, lastUpdated = None\<rparr>\<rparr>"
  by (simp add: loadDataset_def loadDataset_try_def payload_array_def Let_def initial_state_def
        load_step_more object_put_def empty_object_def read_stored_keys_def)

lemma load_one_constructor:
  "loadDataset pf False (Response True 200 (Json_body (Top_array [Some place_ctor]))) initial_state
     = initial_state\<lparr>loading := False, data := [place_ctor],
         datasetInfo := Some \<lparr>total = 1, lastUpdated = None\<rparr>\<rparr>"
  by (simp add: loadDataset_def loadDataset_try_def payload_array_def Let_def initial_state_def
        load_step_more read_stored_keys_def)

text \<open>
  Claim C6, at two datasets of one record, with the user at latitude 1, longitude 103.
  A record whose latitude is written \<open>1e400\<close> gets a cache entry (an infinity is not
  NaN); its distance is NaN, which is not greater than 2, so the record is listed with
  a distance that is not at most 2 km. A record without location whose url is the word
  \<open>constructor\<close> has no cache entry of its own, but \<open>geoCache[key]\<close> reads the inherited
  member of that name, which is truthy, so the record is listed too.
\<close>

theorem nearbyPlaces_lists_nan_distance:
  "place_coords pf place_inf = Inr (Some \<lparr>lat = PInf, lng = Fnum 103\<rparr>)
   \<and> nearbyPlaces impl
        ((loadDataset pf False (Response True 200 (Json_body (Top_array [Some place_inf])))
            initial_state)\<lparr>userLocation := Some here\<rparr>)
       = [\<lparr>place = place_inf, idx = 0, distanceKm = NaN, key = ''https://maps/far'',
           isVisited = False, coords = Coords \<lparr>lat = PInf, lng = Fnum 103\<rparr>\<rparr>]
   \<and> place_coords pf place_ctor = Inr None
   \<and> own_props (geoCache (loadDataset pf False
        (Response True 200 (Json_body (Top_array [Some place_ctor]))) initial_state)) ''constructor''
       = None
   \<and> nearbyPlaces impl
        ((loadDataset pf False (Response True 200 (Json_body (Top_array [Some place_ctor])))
            initial_state)\<lparr>userLocation := Some here\<rparr>)
       = [\<lparr>place = place_ctor, idx = 0, distanceKm = NaN, key = ''constructor'',
           isVisited = False, coords = Builtin_member\<rparr>]"
  unfolding load_one_far load_one_constructor
  by (simp add: coords_examples nearbyPlaces_def nearby_entries_eq nearby_candidate_def
        sort_by_distance_def compares_zero_def js_sub_def initial_state_def keys_examples
        object_get_def OBJECT_PROTOTYPE_NAMES_def empty_object_def
        haversine_infinite_latitude haversine_no_coordinates Let_def)


end
